theory Spec2Isabelle
  imports Complex_Main "HOL-Library.Log_Nat"
begin

section \<open>Python values and exceptions\<close>

text \<open>
  The pipeline of \<^verbatim>\<open>run.py\<close> raises Python exceptions and catches them in one
  handler of \<^verbatim>\<open>main\<close>. An exception is a value here: its class and the text
  that \<^verbatim>\<open>str(e)\<close> gives. Every function that can raise returns
  \<open>exn + 'a\<close>, with \<open>Inl\<close> for the raised exception.
\<close>

datatype exn_class =
  FileNotFoundError | ValueError | KeyError | TypeError | DataError | OSError | YAMLError
  | OverflowError

datatype exn = Exn exn_class string

fun str_exn :: "exn \<Rightarrow> string" where
  "str_exn (Exn _ msg) = msg"

text \<open>
  Python values: what \<^verbatim>\<open>yaml.safe_load\<close> can return for the documents
  considered, and what \<^verbatim>\<open>json.dump\<close> writes. A dictionary is an association
  list in insertion order, looked up with \<open>map_of\<close>. A float is the rational it
  denotes, or NaN.
\<close>

datatype pyval =
  PNone
  | PBool bool
  | PInt int
  | PFloat rat
  | PNaN
  | PStr string
  | PList "pyval list"
  | PDict "(pyval \<times> pyval) list"

text \<open>
  Python's \<^verbatim>\<open>repr\<close> of a string that holds no quote character and no
  backslash: the string between single quotes.
\<close>

definition repr_str :: "string \<Rightarrow> string" where
  "repr_str s = [CHR 39] @ s @ [CHR 39]"

section \<open>Binary64 arithmetic\<close>

text \<open>
  Rounding to the nearest integer, a tie going to the even one.
\<close>

definition round_half_even :: "rat \<Rightarrow> int" where
  "round_half_even x =
     (let f = \<lfloor>x\<rfloor>; d = x - of_int f
      in if d < 1 / 2 then f else if 1 / 2 < d then f + 1 else if even f then f else f + 1)"

text \<open>The same rounding of the fraction \<open>p / q\<close>, for \<open>q > 0\<close>, by integer division.\<close>

definition round_div :: "int \<Rightarrow> int \<Rightarrow> int" where
  "round_div p q =
     (let f = p div q; r = p mod q
      in if 2 * r < q then f else if q < 2 * r then f + 1 else if even f then f else f + 1)"

definition pow2 :: "int \<Rightarrow> rat" where
  "pow2 e = (if 0 \<le> e then 2 ^ nat e else 1 / 2 ^ nat (- e))"

text \<open>
  The binary64 number nearest to the quotient of two integers, for a quotient in the
  normal range: the exact quotient \<open>x\<close>, with \<open>2^e \<le> x < 2^(e+1)\<close>, rounded to the
  nearest multiple of \<open>2^(e-52)\<close>, a tie going to the even multiple. The exponent \<open>e\<close>
  is found from the bit lengths of the operands: their difference \<open>a\<close> has
  \<open>2^(a-1) < x < 2^(a+1)\<close>. For operands that are floats exactly (below \<open>2^53\<close> in
  size) this is Python's float division.
\<close>

definition float_div_pos :: "int \<Rightarrow> int \<Rightarrow> rat" where
  "float_div_pos p q =
     (let x = of_int p / of_int q;
          a = bitlen p - bitlen q;
          e = (if pow2 a \<le> x then a else a - 1);
          u = pow2 (e - 52)
      in of_int (round_half_even (x / u)) * u)"

definition float_div :: "int \<Rightarrow> int \<Rightarrow> rat" where
  "float_div p q =
     (if p = 0 then 0 else if p < 0 then - float_div_pos (- p) q else float_div_pos p q)"

text \<open>
  The binary64 number nearest to a rational, a tie going to the even mantissa. Each
  arithmetic operation of IEEE 754 returns this rounding of its exact result, so the
  float sum of \<open>a\<close> and \<open>b\<close> is \<open>fl (a + b)\<close>. Overflow to infinity and the
  subnormal numbers are not modelled: the numbers are taken to stay in the normal range.
\<close>

definition fl :: "rat \<Rightarrow> rat" where
  "fl x = (case quotient_of x of (p, q) \<Rightarrow> float_div p q)"

section \<open>The table\<close>

text \<open>
  A cell of the decoded CSV file is a number, a boolean (\<^verbatim>\<open>True\<close> or
  \<^verbatim>\<open>False\<close>), a missing value (pandas' NaN) or any other text, one that Python's
  \<^verbatim>\<open>float\<close> does not read as a number either. pandas holds numbers in binary64:
  the cell \<open>Num q\<close> stands for the binary64 number nearest to \<open>q\<close>. Infinities are
  not modelled.
\<close>

datatype csv_cell = Num rat | Flag bool | NaN | Text string

text \<open>
  A DataFrame: the column names, the number of rows (the length of the index) and the
  cell at a column name and row number.
\<close>

record dataframe =
  columns :: "string list"
  index_len :: nat
  cell_at :: "string \<Rightarrow> nat \<Rightarrow> csv_cell"

text \<open>
  A column read from the frame. \<^verbatim>\<open>read_csv\<close> leaves a column as strings (dtype
  object) when it has a cell of other text, or both numbers and booleans. Any other
  column computes as binary64 numbers, \<open>None\<close> standing for NaN: a column of numbers,
  and also a column of booleans, in which \<^verbatim>\<open>True\<close> counts as 1 and
  \<^verbatim>\<open>False\<close> as 0.
\<close>

datatype series = FloatSeries "rat option list" | ObjectSeries "csv_cell list"

fun is_text :: "csv_cell \<Rightarrow> bool" where
  "is_text (Text _) = True"
| "is_text _ = False"

fun is_flag :: "csv_cell \<Rightarrow> bool" where
  "is_flag (Flag _) = True"
| "is_flag _ = False"

fun is_num :: "csv_cell \<Rightarrow> bool" where
  "is_num (Num _) = True"
| "is_num _ = False"

definition object_column :: "csv_cell list \<Rightarrow> bool" where
  "object_column cs \<longleftrightarrow> list_ex is_text cs \<or> (list_ex is_flag cs \<and> list_ex is_num cs)"

fun cell_value :: "csv_cell \<Rightarrow> rat option" where
  "cell_value (Num q) = Some (fl q)"
| "cell_value (Flag b) = Some (if b then 1 else 0)"
| "cell_value _ = None"

definition len_df :: "dataframe \<Rightarrow> nat" where
  "len_df df = index_len df"

definition df_empty :: "dataframe \<Rightarrow> bool" where
  "df_empty df = (index_len df = 0 \<or> columns df = [])"

text \<open>
  \<^verbatim>\<open>df[name]\<close>: KeyError when the frame has no such column; the text of a
  KeyError is the \<^verbatim>\<open>repr\<close> of the key.
\<close>

definition getitem :: "dataframe \<Rightarrow> string \<Rightarrow> exn + series" where
  "getitem df name =
     (if name \<notin> set (columns df) then Inl (Exn KeyError (repr_str name))
      else
        (let cs = map (cell_at df name) [0..<index_len df]
         in if object_column cs then Inr (ObjectSeries cs)
            else Inr (FloatSeries (map cell_value cs))))"

section \<open>The window statistic\<close>

text \<open>
  \<^verbatim>\<open>Series.rolling(window=w).mean()\<close> with pandas' defaults, as pandas 2 computes
  it: \<^verbatim>\<open>min_periods\<close> is \<open>w\<close>, the window of row \<open>i\<close> covers the rows from
  \<open>max(0, i + 1 - w)\<close> up to \<open>i\<close>, and the compiled kernel \<^verbatim>\<open>roll_mean\<close> goes
  through the rows once with a running sum in binary64. Its state: the number of
  observations in the window that are not NaN, their running sum, the number of
  negative ones, the compensation terms of the additions and of the removals (Kahan
  summation), and the last value added with the length of the run of equal values that
  it ends.
\<close>

record mean_state =
  nobs :: nat
  sum_x :: rat
  neg_ct :: nat
  compensation_add :: rat
  compensation_remove :: rat
  num_consecutive_same_value :: nat
  prev_value :: "rat option"

text \<open>
  \<^verbatim>\<open>add_mean\<close> and \<^verbatim>\<open>remove_mean\<close>: a value enters or leaves the window; NaN
  is skipped. Every operation is a binary64 operation.
\<close>

definition add_mean :: "rat option \<Rightarrow> mean_state \<Rightarrow> mean_state" where
  "add_mean val st =
     (case val of
        None \<Rightarrow> st
      | Some v \<Rightarrow>
          (let y = fl (v - compensation_add st);
               t = fl (sum_x st + y)
           in st\<lparr>nobs := nobs st + 1,
                 sum_x := t,
                 neg_ct := (if v < 0 then neg_ct st + 1 else neg_ct st),
                 compensation_add := fl (fl (t - sum_x st) - y),
                 num_consecutive_same_value :=
                   (if prev_value st = Some v then num_consecutive_same_value st + 1 else 1),
                 prev_value := Some v\<rparr>))"

definition remove_mean :: "rat option \<Rightarrow> mean_state \<Rightarrow> mean_state" where
  "remove_mean val st =
     (case val of
        None \<Rightarrow> st
      | Some v \<Rightarrow>
          (let y = fl (- v - compensation_remove st);
               t = fl (sum_x st + y)
           in st\<lparr>nobs := nobs st - 1,
                 sum_x := t,
                 neg_ct := (if v < 0 then neg_ct st - 1 else neg_ct st),
                 compensation_remove := fl (fl (t - sum_x st) - y)\<rparr>))"

text \<open>
  \<^verbatim>\<open>calc_mean\<close>: the value of a row. With enough observations it is the running
  sum divided by their number, except that a window of equal values gives that value,
  and a result whose sign no observation has gives 0; otherwise it is NaN.
\<close>

definition calc_mean :: "nat \<Rightarrow> mean_state \<Rightarrow> rat option" where
  "calc_mean minp st =
     (if minp \<le> nobs st \<and> 0 < nobs st
      then (let result = fl (sum_x st / of_nat (nobs st))
            in if nobs st \<le> num_consecutive_same_value st then prev_value st
               else if neg_ct st = 0 \<and> result < 0 then Some 0
               else if neg_ct st = nobs st \<and> 0 < result then Some 0
               else Some result)
      else None)"

text \<open>
  The bounds of the window of row \<open>i\<close>: the rows from \<open>window_start\<close> up to, not
  including, \<open>window_end\<close>.
\<close>

definition window_end :: "nat \<Rightarrow> nat \<Rightarrow> nat" where
  "window_end w i = (if w = 0 then i else Suc i)"

definition window_start :: "nat \<Rightarrow> nat \<Rightarrow> nat" where
  "window_start w i = window_end w i - w"

definition values_between :: "'a list \<Rightarrow> nat \<Rightarrow> nat \<Rightarrow> 'a list" where
  "values_between xs a b = map ((!) xs) [a..<b]"

text \<open>
  The state of the kernel after row \<open>i\<close>. At row 0, and at a row whose window starts
  where the window before ended or later, the state is set up anew and the values of the
  window are added; at any other row the values that left the window are removed from
  the state of the row before and the values that entered are added.
\<close>

definition mean_setup :: "rat option list \<Rightarrow> nat \<Rightarrow> mean_state" where
  "mean_setup xs s =
     \<lparr>nobs = 0, sum_x = 0, neg_ct = 0, compensation_add = 0, compensation_remove = 0,
      num_consecutive_same_value = 0, prev_value = xs ! s\<rparr>"

fun roll_state :: "rat option list \<Rightarrow> nat \<Rightarrow> nat \<Rightarrow> mean_state" where
  "roll_state xs w 0 =
     fold add_mean (values_between xs (window_start w 0) (window_end w 0))
       (mean_setup xs (window_start w 0))"
| "roll_state xs w (Suc i) =
     (let s = window_start w (Suc i); e = window_end w (Suc i)
      in if window_end w i \<le> s
         then fold add_mean (values_between xs s e) (mean_setup xs s)
         else fold add_mean (values_between xs (window_end w i) e)
                (fold remove_mean (values_between xs (window_start w i) s)
                   (roll_state xs w i)))"

definition rolling_mean_at :: "rat option list \<Rightarrow> nat \<Rightarrow> nat \<Rightarrow> rat option" where
  "rolling_mean_at xs w i = calc_mean w (roll_state xs w i)"

definition rolling_mean :: "rat option list \<Rightarrow> nat \<Rightarrow> rat option list" where
  "rolling_mean xs w = map (rolling_mean_at xs w) [0..<length xs]"

text \<open>
  \<^verbatim>\<open>compute_rolling_mean(df, window, logger)\<close>. pandas validates the window when
  \<^verbatim>\<open>rolling\<close> is called: it must be an integer that is not a bool, and not
  negative. \<^verbatim>\<open>mean\<close> then refuses an object column, and a window that does not
  fit a signed 64-bit integer raises OverflowError when the bounds of the windows are
  computed.
\<close>

definition compute_rolling_mean :: "dataframe \<Rightarrow> pyval \<Rightarrow> exn + rat option list" where
  "compute_rolling_mean df window =
     (case getitem df ''close'' of
        Inl e \<Rightarrow> Inl e
      | Inr s \<Rightarrow>
          (case window of
             PInt w \<Rightarrow>
               (if w < 0 then Inl (Exn ValueError ''window must be an integer 0 or greater'')
                else (case s of
                        ObjectSeries _ \<Rightarrow> Inl (Exn DataError ''No numeric types to aggregate'')
                      | FloatSeries xs \<Rightarrow>
                          (if 2 ^ 63 \<le> w
                           then Inl (Exn OverflowError
                                  ''Python int too large to convert to C long'')
                           else Inr (rolling_mean xs (nat w)))))
           | _ \<Rightarrow> Inl (Exn ValueError ''window must be an integer 0 or greater'')))"

text \<open>
  The window of row \<open>i\<close> as the specification words it, the rows \<open>i - w + 1\<close> to
  \<open>i\<close>; the observations of a window, its cells that are not NaN; and the arithmetic
  mean of a window of cells, in exact arithmetic (as in floating-point arithmetic, the
  mean of values one of which is NaN is NaN).
\<close>

definition rolling_window :: "'a list \<Rightarrow> nat \<Rightarrow> nat \<Rightarrow> 'a list" where
  "rolling_window xs w i = drop (Suc i - w) (take (Suc i) xs)"

definition observations :: "rat option list \<Rightarrow> rat list" where
  "observations cs = map the (filter (\<lambda>c. c \<noteq> None) cs)"

definition arithmetic_mean :: "rat option list \<Rightarrow> rat option" where
  "arithmetic_mean cs =
     (if cs = [] \<or> None \<in> set cs then None
      else Some (sum_list (map the cs) / of_nat (length cs)))"

text \<open>
  The state of the kernel is exact for a window of integers \<open>ns\<close> when it counts them,
  holds their sum without rounding error and no compensation, and the run of equal values
  that it records lies in the window.
\<close>

definition exact_state :: "mean_state \<Rightarrow> int list \<Rightarrow> bool" where
  "exact_state st ns \<longleftrightarrow>
     nobs st = length ns \<and> sum_x st = of_int (sum_list ns) \<and> neg_ct st = 0 \<and>
     compensation_add st = 0 \<and> compensation_remove st = 0 \<and>
     (\<forall>n\<in>set (drop (length ns - num_consecutive_same_value st) ns).
        prev_value st = Some (of_int n))"

section \<open>The signals\<close>

text \<open>
  \<^verbatim>\<open>df['close'] > rolling_mean\<close>: pandas compares two series row by row, and
  raises when they are not labelled alike (here: of different length). A comparison with
  NaN on either side is false.
\<close>

fun gt_cell :: "rat option \<Rightarrow> rat option \<Rightarrow> bool" where
  "gt_cell (Some a) (Some b) = (b < a)"
| "gt_cell _ _ = False"

definition series_gt :: "rat option list \<Rightarrow> rat option list \<Rightarrow> exn + bool list" where
  "series_gt xs ys =
     (if length xs \<noteq> length ys
      then Inl (Exn ValueError ''Can only compare identically-labeled Series objects'')
      else Inr (map (\<lambda>(x, y). gt_cell x y) (zip xs ys)))"

text \<open>
  An integer series that may hold missing values is an \<open>int option list\<close>.
  \<^verbatim>\<open>astype(int)\<close> of a boolean series has none; \<^verbatim>\<open>fillna(0)\<close> replaces
  each missing value by 0; \<^verbatim>\<open>astype(int)\<close> of a series with a missing value
  raises.
\<close>

definition bool_astype_int :: "bool list \<Rightarrow> int option list" where
  "bool_astype_int bs = map (\<lambda>b. Some (if b then 1 else 0)) bs"

definition fillna :: "int \<Rightarrow> int option list \<Rightarrow> int option list" where
  "fillna v s = map (\<lambda>x. case x of None \<Rightarrow> Some v | Some y \<Rightarrow> Some y) s"

definition astype_int :: "int option list \<Rightarrow> exn + int list" where
  "astype_int s =
     (if None \<in> set s
      then Inl (Exn ValueError ''Cannot convert non-finite values (NA or inf) to integer'')
      else Inr (map the s))"

text \<open>
  \<^verbatim>\<open>generate_signals(df, rolling_mean, logger)\<close>. On a column of strings the
  comparison raises TypeError.
\<close>

definition not_supported_str_float :: string where
  "not_supported_str_float =
     repr_str ''>'' @ '' not supported between instances of '' @ repr_str ''str''
       @ '' and '' @ repr_str ''float''"

definition generate_signals :: "dataframe \<Rightarrow> rat option list \<Rightarrow> exn + int list" where
  "generate_signals df rm =
     (case getitem df ''close'' of
        Inl e \<Rightarrow> Inl e
      | Inr (ObjectSeries _) \<Rightarrow>
          Inl (Exn TypeError not_supported_str_float)
      | Inr (FloatSeries xs) \<Rightarrow>
          (case series_gt xs rm of
             Inl e \<Rightarrow> Inl e
           | Inr bs \<Rightarrow> astype_int (fillna 0 (bool_astype_int bs))))"

text \<open>
  The simpler function of the comparison alone, without the fill step: each comparison
  result converted to 0 or 1.
\<close>

definition generate_signals_direct :: "dataframe \<Rightarrow> rat option list \<Rightarrow> exn + int list" where
  "generate_signals_direct df rm =
     (case getitem df ''close'' of
        Inl e \<Rightarrow> Inl e
      | Inr (ObjectSeries _) \<Rightarrow>
          Inl (Exn TypeError not_supported_str_float)
      | Inr (FloatSeries xs) \<Rightarrow>
          (case series_gt xs rm of
             Inl e \<Rightarrow> Inl e
           | Inr bs \<Rightarrow> Inr (map (\<lambda>b. if b then 1 else 0) bs)))"

text \<open>The table of the specification's first scenario: five rows, close = 1, 2, 3, 4, 5.\<close>

definition scenario_frame :: dataframe where
  "scenario_frame =
     \<lparr>columns = [''close''], index_len = 5, cell_at = (\<lambda>c i. Num (of_nat (Suc i)))\<rparr>"

text \<open>A configuration whose window is \<open>2^63\<close>.\<close>

definition huge_window_config :: pyval where
  "huge_window_config =
     PDict [(PStr ''seed'', PInt 42), (PStr ''window'', PInt (2 ^ 63)),
            (PStr ''version'', PStr ''v1'')]"


section \<open>Configuration\<close>

text \<open>
  Python's truth value of an object, \<^verbatim>\<open>isinstance\<close> for the three types the
  validation asks about, and the integer a value of type \<^verbatim>\<open>int\<close> denotes. In
  Python \<^verbatim>\<open>bool\<close> is a subclass of \<^verbatim>\<open>int\<close>: \<^verbatim>\<open>isinstance(True, int)\<close>
  holds, and \<^verbatim>\<open>True\<close> compares as 1, \<^verbatim>\<open>False\<close> as 0.
\<close>

fun truthy :: "pyval \<Rightarrow> bool" where
  "truthy PNone = False"
| "truthy (PBool b) = b"
| "truthy (PInt i) = (i \<noteq> 0)"
| "truthy (PFloat q) = (q \<noteq> 0)"
| "truthy PNaN = True"
| "truthy (PStr s) = (s \<noteq> [])"
| "truthy (PList xs) = (xs \<noteq> [])"
| "truthy (PDict kvs) = (kvs \<noteq> [])"

fun isinstance_dict :: "pyval \<Rightarrow> bool" where
  "isinstance_dict (PDict _) = True"
| "isinstance_dict _ = False"

fun isinstance_int :: "pyval \<Rightarrow> bool" where
  "isinstance_int (PInt _) = True"
| "isinstance_int (PBool _) = True"
| "isinstance_int _ = False"

fun isinstance_str :: "pyval \<Rightarrow> bool" where
  "isinstance_str (PStr _) = True"
| "isinstance_str _ = False"

fun int_value :: "pyval \<Rightarrow> int" where
  "int_value (PInt i) = i"
| "int_value (PBool b) = (if b then 1 else 0)"
| "int_value _ = 0"

text \<open>
  \<^verbatim>\<open>key in config\<close> and \<^verbatim>\<open>config[key]\<close> for a string key; the text of a
  KeyError is the \<^verbatim>\<open>repr\<close> of the key.
\<close>

fun contains_key :: "pyval \<Rightarrow> string \<Rightarrow> bool" where
  "contains_key (PDict kvs) k = (map_of kvs (PStr k) \<noteq> None)"
| "contains_key _ k = False"

fun subscript :: "pyval \<Rightarrow> string \<Rightarrow> exn + pyval" where
  "subscript (PDict kvs) k =
     (case map_of kvs (PStr k) of
        None \<Rightarrow> Inl (Exn KeyError (repr_str k))
      | Some v \<Rightarrow> Inr v)"
| "subscript _ k = Inl (Exn TypeError ''object is not subscriptable'')"

text \<open>The loop over the required keys: the first one that is missing, in the loop's order.\<close>

fun first_missing :: "pyval \<Rightarrow> string list \<Rightarrow> string option" where
  "first_missing config [] = None"
| "first_missing config (key # keys) =
     (if \<not> contains_key config key then Some key else first_missing config keys)"

text \<open>
  What is at the configuration path: no file, a file that \<^verbatim>\<open>yaml.safe_load\<close>
  refuses (with the text of its exception), or the loaded value.
\<close>

datatype config_source = NoConfigFile | NotYaml string | Loaded pyval

text \<open>\<^verbatim>\<open>load_config(config_path, logger)\<close>; it returns the dictionary.\<close>

definition load_config :: "string \<Rightarrow> config_source \<Rightarrow> exn + pyval" where
  "load_config config_path src =
     (case src of
        NoConfigFile \<Rightarrow>
          Inl (Exn FileNotFoundError (''Configuration file not found: '' @ config_path))
      | NotYaml msg \<Rightarrow> Inl (Exn YAMLError msg)
      | Loaded config \<Rightarrow>
          (if \<not> truthy config \<or> \<not> isinstance_dict config
           then Inl (Exn ValueError ''Invalid config file: empty or malformed'')
           else
             (case first_missing config [''seed'', ''window'', ''version''] of
                Some key \<Rightarrow> Inl (Exn ValueError (''Missing required config key: '' @ key))
              | None \<Rightarrow>
                  (case (subscript config ''seed'', subscript config ''window'',
                         subscript config ''version'') of
                     (Inr seed, Inr window, Inr version) \<Rightarrow>
                       (if \<not> isinstance_int seed
                        then Inl (Exn ValueError ''seed must be an integer'')
                        else if \<not> isinstance_int window \<or> int_value window < 1
                        then Inl (Exn ValueError ''window must be a positive integer'')
                        else if \<not> isinstance_str version
                        then Inl (Exn ValueError ''version must be a string'')
                        else Inr config)
                   | (Inl e, _, _) \<Rightarrow> Inl e
                   | (_, Inl e, _) \<Rightarrow> Inl e
                   | (_, _, Inl e) \<Rightarrow> Inl e))))"

text \<open>
  \<^verbatim>\<open>np.random.seed(seed)\<close>: numpy takes the value as an index and accepts the
  seeds 0 to \<open>2^32 - 1\<close>; the result is the seed applied.
\<close>

definition np_random_seed :: "pyval \<Rightarrow> exn + int" where
  "np_random_seed seed =
     (if \<not> isinstance_int seed then Inl (Exn TypeError ''Cannot cast scalar to int'')
      else if int_value seed < 0 \<or> 2 ^ 32 - 1 < int_value seed
      then Inl (Exn ValueError ''Seed must be between 0 and 2**32 - 1'')
      else Inr (int_value seed))"

section \<open>Loading the table\<close>

text \<open>
  What is at the input path: no file, a file for which \<^verbatim>\<open>pd.read_csv\<close> raises
  EmptyDataError or ParserError or any other exception, or the decoded frame.
\<close>

datatype input_source =
  NoInputFile | EmptyData | ParserFailure | ReadFailure exn | Frame dataframe

text \<open>
  Python's \<^verbatim>\<open>repr\<close> of a list of column names, for names that hold no quote
  character and no backslash.
\<close>

fun repr_items :: "string list \<Rightarrow> string" where
  "repr_items [] = []"
| "repr_items [x] = repr_str x"
| "repr_items (x # xs) = repr_str x @ '', '' @ repr_items xs"

definition repr_list :: "string list \<Rightarrow> string" where
  "repr_list xs = ''['' @ repr_items xs @ '']''"

text \<open>\<^verbatim>\<open>load_data(input_path, logger)\<close>.\<close>

definition load_data :: "string \<Rightarrow> input_source \<Rightarrow> exn + dataframe" where
  "load_data input_path src =
     (case src of
        NoInputFile \<Rightarrow> Inl (Exn FileNotFoundError (''Input file not found: '' @ input_path))
      | EmptyData \<Rightarrow> Inl (Exn ValueError ''Input CSV file is empty'')
      | ParserFailure \<Rightarrow> Inl (Exn ValueError ''Invalid CSV format'')
      | ReadFailure e \<Rightarrow> Inl e
      | Frame df \<Rightarrow>
          (if df_empty df then Inl (Exn ValueError ''CSV file contains no data rows'')
           else if ''close'' \<notin> set (columns df)
           then Inl (Exn ValueError
                  (''Missing required column: close. Found: '' @ repr_list (columns df)))
           else Inr df))"

section \<open>The metric\<close>

text \<open>
  \<^verbatim>\<open>Series.mean()\<close> of an integer series: pandas sums in binary64 (exact for sums
  below \<open>2^53\<close>) and divides by the count; the mean of an empty series is NaN
  (\<open>None\<close>).
\<close>

definition series_mean :: "int list \<Rightarrow> rat option" where
  "series_mean s =
     (if s = [] then None else Some (float_div (sum_list s) (int (length s))))"

text \<open>
  Python's \<^verbatim>\<open>round(x, ndigits)\<close> of a float: the exact value of \<open>x\<close> is rounded
  to \<open>ndigits\<close> decimal places, a tie going to the even digit, and the result is the
  float nearest to that decimal.
\<close>

definition py_round :: "rat option \<Rightarrow> nat \<Rightarrow> rat option" where
  "py_round x ndigits =
     (case x of
        None \<Rightarrow> None
      | Some v \<Rightarrow> Some (float_div (round_half_even (v * 10 ^ ndigits)) (10 ^ ndigits)))"

fun float_val :: "rat option \<Rightarrow> pyval" where
  "float_val None = PNaN"
| "float_val (Some q) = PFloat q"

text \<open>\<^verbatim>\<open>calculate_metrics(signals, total_rows, config, latency_ms, logger)\<close>.\<close>

definition calculate_metrics :: "int list \<Rightarrow> nat \<Rightarrow> pyval \<Rightarrow> int \<Rightarrow> exn + pyval" where
  "calculate_metrics signals total_rows config latency_ms =
     (let signal_rate = py_round (series_mean signals) 4
      in case subscript config ''version'' of
           Inl e \<Rightarrow> Inl e
         | Inr version \<Rightarrow>
             (case subscript config ''seed'' of
                Inl e \<Rightarrow> Inl e
              | Inr seed \<Rightarrow>
                  Inr (PDict
                    [(PStr ''version'', version),
                     (PStr ''rows_processed'', PInt (int total_rows)),
                     (PStr ''metric'', PStr ''signal_rate''),
                     (PStr ''value'', float_val signal_rate),
                     (PStr ''latency_ms'', PInt latency_ms),
                     (PStr ''seed'', seed),
                     (PStr ''status'', PStr ''success'')])))"

text \<open>
  The specification's reading of the metric: the exact arithmetic mean of the signals,
  rounded to \<open>ndigits\<close> decimal places with ties to even; and the float that a decimal
  denotes.
\<close>

definition exact_mean :: "int list \<Rightarrow> rat" where
  "exact_mean s = of_int (sum_list s) / of_nat (length s)"

definition decimal_round_half_even :: "rat \<Rightarrow> nat \<Rightarrow> rat" where
  "decimal_round_half_even x ndigits =
     of_int (round_half_even (x * 10 ^ ndigits)) / 10 ^ ndigits"

definition float_of_decimal :: "int \<Rightarrow> nat \<Rightarrow> rat" where
  "float_of_decimal digits ndigits = float_div digits (10 ^ ndigits)"

section \<open>The run\<close>

text \<open>
  The command line of a run, as \<^verbatim>\<open>parse_arguments\<close> returns it (the fields
  \<^verbatim>\<open>input\<close>, \<^verbatim>\<open>config\<close>, \<^verbatim>\<open>output\<close> and \<^verbatim>\<open>log_file\<close>).
\<close>

record args =
  arg_input :: string
  arg_config :: string
  arg_output :: string
  arg_log_file :: string

text \<open>
  \<^verbatim>\<open>write_output(data, output_path)\<close> opens the output path for writing and dumps
  the document into it. The file system decides the outcome: the document is written,
  or \<^verbatim>\<open>open\<close> fails and the path stays as it was, or the dump fails after the file
  was truncated and the path holds no JSON document. Each failure is an OSError with its
  text.
\<close>

datatype write_outcome = Written | OpenFails string | DumpFails string

datatype file_content = Absent | Document pyval | Unparsable

text \<open>
  What a run meets outside itself: the command line (\<open>None\<close> when
  \<^verbatim>\<open>argparse\<close> refuses it and exits with status 2), whether the log file can be
  opened (\<open>Some\<close> text of the error when not), what is at the configuration and input
  paths, the two readings of the clock that the result uses, the outcome of each write
  to the output path in order, whether echoing to standard output fails, and what was at
  the output path before.
\<close>

record env =
  argv :: "args option"
  log_error :: "string option"
  config_file :: config_source
  input_file :: input_source
  start_time :: rat
  time_in_try :: rat
  write_outcome_at :: "nat \<Rightarrow> write_outcome"
  stdout_error :: "string option"
  output_before :: file_content

text \<open>
  The effects of a run that the claims speak about, in order: the seed applied to the
  generator, the input file being read by \<^verbatim>\<open>pd.read_csv\<close>, each attempt to write a
  document, and the echo of the metrics. Log lines are left out: a logging call does not
  raise, so it cannot change what the run does.
\<close>

datatype event = SeedApplied int | InputRead | WriteAttempt pyval write_outcome | Echoed pyval

record state =
  version :: pyval
  output_file :: file_content
  writes_done :: nat
  events :: "event list"

text \<open>How a run ends: \<^verbatim>\<open>main\<close> returns a status, or an exception leaves it.\<close>

datatype exit = Returned int | Raised exn | SystemExit int

definition write_output :: "env \<Rightarrow> pyval \<Rightarrow> state \<Rightarrow> exn option \<times> state" where
  "write_output ev data st =
     (let outcome = write_outcome_at ev (writes_done st);
          st' = st\<lparr>writes_done := Suc (writes_done st),
                   events := events st @ [WriteAttempt data outcome]\<rparr>
      in case outcome of
           Written \<Rightarrow> (None, st'\<lparr>output_file := Document data\<rparr>)
         | OpenFails msg \<Rightarrow> (Some (Exn OSError msg), st')
         | DumpFails msg \<Rightarrow> (Some (Exn OSError msg), st'\<lparr>output_file := Unparsable\<rparr>))"

text \<open>Python's \<^verbatim>\<open>int\<close> of a float truncates towards zero.\<close>

definition py_int :: "rat \<Rightarrow> int" where
  "py_int x = (if 0 \<le> x then \<lfloor>x\<rfloor> else \<lceil>x\<rceil>)"

text \<open>
  \<^verbatim>\<open>int((time.time() - start_time) * 1000)\<close>. A reading of the clock is a
  binary64 number, the one nearest to the reading given; the difference and the product
  are binary64 operations.
\<close>

definition elapsed_ms :: "rat \<Rightarrow> rat \<Rightarrow> int" where
  "elapsed_ms t0 t = py_int (fl (fl (fl t - fl t0) * 1000))"

text \<open>
  \<^verbatim>\<open>load_data\<close> calls \<^verbatim>\<open>pd.read_csv\<close> on every input path that is a file.
\<close>

fun reads_input :: "input_source \<Rightarrow> bool" where
  "reads_input NoInputFile = False"
| "reads_input _ = True"

text \<open>
  The first part of the \<^verbatim>\<open>try\<close> block of \<^verbatim>\<open>main\<close>, up to the signals:
  the configuration, the version taken from it, the seed, the table, the window
  statistic and the signals.
\<close>

definition prepare ::
  "env \<Rightarrow> args \<Rightarrow> state \<Rightarrow> (exn + pyval \<times> dataframe \<times> int list) \<times> state" where
  "prepare ev a st0 =
     (case load_config (arg_config a) (config_file ev) of
        Inl e \<Rightarrow> (Inl e, st0)
      | Inr cfg \<Rightarrow>
     (case subscript cfg ''version'' of
        Inl e \<Rightarrow> (Inl e, st0)
      | Inr v \<Rightarrow>
     (let st1 = st0\<lparr>version := v\<rparr> in
     (case subscript cfg ''seed'' of
        Inl e \<Rightarrow> (Inl e, st1)
      | Inr seed \<Rightarrow>
     (case np_random_seed seed of
        Inl e \<Rightarrow> (Inl e, st1)
      | Inr applied \<Rightarrow>
     (let read = (if reads_input (input_file ev) then [InputRead] else []);
          st2 = st1\<lparr>events := events st1 @ [SeedApplied applied] @ read\<rparr> in
     (case load_data (arg_input a) (input_file ev) of
        Inl e \<Rightarrow> (Inl e, st2)
      | Inr df \<Rightarrow>
     (case subscript cfg ''window'' of
        Inl e \<Rightarrow> (Inl e, st2)
      | Inr window \<Rightarrow>
     (case compute_rolling_mean df window of
        Inl e \<Rightarrow> (Inl e, st2)
      | Inr rm \<Rightarrow>
     (case generate_signals df rm of
        Inl e \<Rightarrow> (Inl e, st2)
      | Inr signals \<Rightarrow> (Inr (cfg, df, signals), st2)))))))))))"

text \<open>
  The \<^verbatim>\<open>try\<close> block: the part above, then the elapsed time, the metrics, the write
  of the metrics and their echo. Everything it raises goes to the handler.
\<close>

definition try_block :: "env \<Rightarrow> args \<Rightarrow> state \<Rightarrow> (exn + unit) \<times> state" where
  "try_block ev a st0 =
     (case prepare ev a st0 of
        (Inl e, st) \<Rightarrow> (Inl e, st)
      | (Inr (cfg, df, signals), st) \<Rightarrow>
          (let elapsed = elapsed_ms (start_time ev) (time_in_try ev)
           in case calculate_metrics signals (len_df df) cfg elapsed of
                Inl e \<Rightarrow> (Inl e, st)
              | Inr metrics \<Rightarrow>
                  (case write_output ev metrics st of
                     (Some e, st') \<Rightarrow> (Inl e, st')
                   | (None, st') \<Rightarrow>
                       (case stdout_error ev of
                          Some msg \<Rightarrow> (Inl (Exn OSError msg), st')
                        | None \<Rightarrow> (Inr (), st'\<lparr>events := events st' @ [Echoed metrics]\<rparr>)))))"

definition error_out :: "pyval \<Rightarrow> exn \<Rightarrow> pyval" where
  "error_out ver e =
     PDict [(PStr ''version'', ver),
            (PStr ''status'', PStr ''error''),
            (PStr ''error_message'', PStr (str_exn e))]"

text \<open>
  \<^verbatim>\<open>main()\<close>. Argument parsing and the logging set-up come before the
  \<^verbatim>\<open>try\<close> block, so their failures are not handled; the handler writes the error
  document, and an exception of that write leaves \<^verbatim>\<open>main\<close>.
\<close>

definition main :: "env \<Rightarrow> exit \<times> state" where
  "main ev =
     (let st0 = \<lparr>version = PStr ''v1'', output_file = output_before ev,
                 writes_done = 0, events = []\<rparr>
      in case argv ev of
           None \<Rightarrow> (SystemExit 2, st0)
         | Some a \<Rightarrow>
             (case log_error ev of
                Some msg \<Rightarrow> (Raised (Exn OSError msg), st0)
              | None \<Rightarrow>
                  (case try_block ev a st0 of
                     (Inr u, st) \<Rightarrow> (Returned 0, st)
                   | (Inl e, st) \<Rightarrow>
                       (case write_output ev (error_out (version st) e) st of
                          (Some e', st') \<Rightarrow> (Raised e', st')
                        | (None, st') \<Rightarrow> (Returned 1, st')))))"

section \<open>The output contract, as the specification words it\<close>

text \<open>
  The two schemas of the output document: the keys in their order, and the status.
\<close>

fun success_schema :: "pyval \<Rightarrow> bool" where
  "success_schema (PDict kvs) =
     (map fst kvs = map PStr [''version'', ''rows_processed'', ''metric'', ''value'',
                              ''latency_ms'', ''seed'', ''status'']
      \<and> map_of kvs (PStr ''status'') = Some (PStr ''success''))"
| "success_schema _ = False"

fun failure_schema :: "pyval \<Rightarrow> bool" where
  "failure_schema (PDict kvs) =
     (map fst kvs = map PStr [''version'', ''status'', ''error_message'']
      \<and> map_of kvs (PStr ''status'') = Some (PStr ''error''))"
| "failure_schema _ = False"

text \<open>A field of a document, and the document without its latency field.\<close>

fun field :: "pyval \<Rightarrow> string \<Rightarrow> pyval option" where
  "field (PDict kvs) k = map_of kvs (PStr k)"
| "field _ k = None"

fun without_latency :: "pyval \<Rightarrow> pyval" where
  "without_latency (PDict kvs) = PDict (filter (\<lambda>kv. fst kv \<noteq> PStr ''latency_ms'') kvs)"
| "without_latency d = d"

fun content_without_latency :: "file_content \<Rightarrow> file_content" where
  "content_without_latency (Document d) = Document (without_latency d)"
| "content_without_latency c = c"

text \<open>The write attempts of a run, in order, read off its effects.\<close>

fun write_attempts :: "event list \<Rightarrow> (pyval \<times> write_outcome) list" where
  "write_attempts [] = []"
| "write_attempts (WriteAttempt d oc # es) = (d, oc) # write_attempts es"
| "write_attempts (_ # es) = write_attempts es"

text \<open>Runs used as examples: the table and configuration of the first scenario.\<close>

definition scenario_args :: args where
  "scenario_args =
     \<lparr>arg_input = ''data.csv'', arg_config = ''config.yaml'',
      arg_output = ''metrics.json'', arg_log_file = ''run.log''\<rparr>"

definition scenario_config :: pyval where
  "scenario_config =
     PDict [(PStr ''seed'', PInt 42), (PStr ''window'', PInt 3), (PStr ''version'', PStr ''v1'')]"

definition scenario_env :: env where
  "scenario_env =
     \<lparr>argv = Some scenario_args, log_error = None,
      config_file = Loaded scenario_config, input_file = Frame scenario_frame,
      start_time = 0, time_in_try = 1 / 4,
      write_outcome_at = (\<lambda>n. Written), stdout_error = None, output_before = Absent\<rparr>"

text \<open>
  A configuration whose window is the boolean true; a run whose configuration file is
  missing and whose output path cannot be opened; and a run of the scenario in which the
  first write to the output path fails and the second succeeds.
\<close>

definition bool_window_config :: pyval where
  "bool_window_config =
     PDict [(PStr ''seed'', PInt 1), (PStr ''window'', PBool True), (PStr ''version'', PStr ''v1'')]"

definition bool_window_env :: env where
  "bool_window_env = scenario_env\<lparr>config_file := Loaded bool_window_config\<rparr>"


definition failing_first_write_env :: env where
  "failing_first_write_env =
     scenario_env\<lparr>write_outcome_at :=
       (\<lambda>n. if n = 0 then OpenFails ''Disk quota exceeded'' else Written)\<rparr>"

text \<open>
  Two states of a run agree up to latency when they hold the same version and number of
  writes and the same output file once the latency field is dropped.
\<close>

definition agree :: "state \<Rightarrow> state \<Rightarrow> bool" where
  "agree s t \<longleftrightarrow>
     version s = version t \<and> writes_done s = writes_done t \<and>
     content_without_latency (output_file s) = content_without_latency (output_file t)"

text \<open>
  The success document of the first scenario, with a latency of 250 ms; and a signal
  series of 160 rows with a single 1, whose exact mean 0.00625 lies halfway between
  0.0062 and 0.0063.
\<close>

definition scenario_document :: pyval where
  "scenario_document =
     PDict [(PStr ''version'', PStr ''v1''),
            (PStr ''rows_processed'', PInt 5),
            (PStr ''metric'', PStr ''signal_rate''),
            (PStr ''value'', PFloat (float_of_decimal 6 1)),
            (PStr ''latency_ms'', PInt 250),
            (PStr ''seed'', PInt 42),
            (PStr ''status'', PStr ''success'')]"

definition tie_signals :: "int list" where
  "tie_signals = 1 # replicate 159 0"

section \<open>Properties of the binary64 rounding\<close>

lemma round_half_even_fraction:
  assumes "0 < q"
  shows "round_half_even (of_int p / of_int q) = round_div p q"
proof -
  have fl: "\<lfloor>(of_int p / of_int q :: rat)\<rfloor> = p div q"
    by (rule floor_divide_of_int_eq)
  have "(of_int p :: rat) = of_int (p div q) * of_int q + of_int (p mod q)"
    by (simp only: of_int_mult [symmetric] of_int_add [symmetric] div_mult_mod_eq)
  then have "(of_int p / of_int q :: rat) = of_int (p div q) + of_int (p mod q) / of_int q"
    using assms by (simp add: field_simps)
  then have d: "(of_int p / of_int q :: rat) - of_int (p div q) = of_int (p mod q) / of_int q"
    by simp
  have lt: "(of_int (p mod q) / of_int q :: rat) < 1 / 2 \<longleftrightarrow> 2 * (p mod q) < q"
  proof -
    have "(of_int (p mod q) / of_int q :: rat) < 1 / 2 \<longleftrightarrow> (of_int (2 * (p mod q)) :: rat) < of_int q"
      using assms by (simp add: field_simps)
    then show ?thesis by (simp only: of_int_less_iff)
  qed
  have gt: "1 / 2 < (of_int (p mod q) / of_int q :: rat) \<longleftrightarrow> q < 2 * (p mod q)"
  proof -
    have "1 / 2 < (of_int (p mod q) / of_int q :: rat) \<longleftrightarrow> (of_int q :: rat) < of_int (2 * (p mod q))"
      using assms by (simp add: field_simps)
    then show ?thesis by (simp only: of_int_less_iff)
  qed
  show ?thesis
    unfolding round_half_even_def round_div_def Let_def fl d lt gt ..
qed

lemma round_half_even_numeral:
  "round_half_even (numeral a / numeral b) = round_div (numeral a) (numeral b)"
  using round_half_even_fraction [of "numeral b" "numeral a"] by simp

lemma pow2_neg: "pow2 (- int k) = 1 / 2 ^ k"
  by (simp add: pow2_def)

lemma float_div_pos_scaled:
  assumes "0 < q"
    and "bitlen p - bitlen q = a"
    and "(if pow2 a \<le> of_int p / of_int q then a else a - 1) = 52 - int k"
  shows "float_div_pos p q = of_int (round_div (p * 2 ^ k) q) / 2 ^ k"
proof -
  have u: "pow2 (52 - int k - 52) = 1 / 2 ^ k"
    using pow2_neg [of k] by simp
  have "(of_int p / of_int q :: rat) / (1 / 2 ^ k) = of_int (p * 2 ^ k) / of_int q"
    by simp
  then have "round_half_even ((of_int p / of_int q) / (1 / 2 ^ k)) = round_div (p * 2 ^ k) q"
    using round_half_even_fraction [OF assms(1), of "p * 2 ^ k"] by simp
  then show ?thesis
    unfolding float_div_pos_def Let_def assms(2) assms(3) u by simp
qed

lemma bitlen_eqI:
  assumes "2 ^ (w - 1) \<le> x" and "x < 2 ^ w" and "0 < w"
  shows "bitlen x = int w"
proof -
  from assms(1) have x: "0 < x"
    by (rule less_le_trans [rotated]) simp
  from assms(1) x have "(2::nat) ^ (w - 1) \<le> nat x"
    by (simp add: le_nat_iff)
  then have ge: "w \<le> floorlog 2 (nat x)"
    by (rule floorlog_geI) simp
  from assms(2) x have "nat x < 2 ^ w"
    by (simp add: nat_less_iff)
  then have "floorlog 2 (nat x) \<le> w"
    by (rule floorlog_leI) simp_all
  with ge show ?thesis
    by (simp add: bitlen_def)
qed

lemma quotient_of_of_int: "quotient_of (of_int n) = (n, 1)"
  using quotient_of_int [of n] by (simp add: Rat.of_int_def)

lemma round_half_even_of_int: "round_half_even (of_int n) = n"
  by (simp add: round_half_even_def)

lemma pow2_nonpos:
  assumes "e \<le> 0"
  shows "pow2 e = 1 / 2 ^ nat (- e)"
  using assms by (cases "e = 0") (simp_all add: pow2_def)

lemma float_div_pos_int:
  assumes "0 < n" and "n < 2 ^ 53"
  shows "float_div_pos n 1 = of_int n"
proof -
  define a where "a = bitlen n - bitlen 1"
  define k where "k = nat (52 - a)"
  have b1: "bitlen 1 = 1"
    using bitlen_eqI [of 1 1] by simp
  from assms(1) have lo: "2 ^ nat (bitlen n - 1) \<le> n"
    using bitlen_bounds [of n] by simp
  from assms(1) have "1 \<le> bitlen n"
    by (simp add: bitlen_ge_iff_power)
  then have a0: "0 \<le> a"
    by (simp add: a_def b1)
  from assms(2) have "bitlen n \<le> 53"
    by (simp add: bitlen_le_iff_power)
  then have a52: "a \<le> 52"
    by (simp add: a_def b1)
  from lo have "(of_int (2 ^ nat a) :: rat) \<le> of_int n"
    unfolding a_def b1 by (simp only: of_int_le_iff)
  with a0 have p: "pow2 a \<le> of_int n / of_int 1"
    by (simp add: pow2_def)
  from a52 have u: "pow2 (a - 52) = 1 / 2 ^ k"
    using pow2_nonpos [of "a - 52"] by (simp add: k_def)
  have "(of_int n / of_int 1 :: rat) / (1 / 2 ^ k) = of_int (n * 2 ^ k)"
    by simp
  then have r: "round_half_even ((of_int n / of_int 1) / (1 / 2 ^ k)) = n * 2 ^ k"
    by (simp only: round_half_even_of_int)
  have "float_div_pos n 1 = of_int (n * 2 ^ k) * (1 / 2 ^ k)"
    unfolding float_div_pos_def Let_def a_def [symmetric] using p by (simp only: if_True u r)
  then show ?thesis
    by simp
qed

lemma fl_of_int:
  assumes "\<bar>n\<bar> < 2 ^ 53"
  shows "fl (of_int n) = of_int n"
proof -
  have "float_div n 1 = of_int n"
  proof (cases "n = 0")
    case True
    then show ?thesis by (simp add: float_div_def)
  next
    case False
    show ?thesis
    proof (cases "n < 0")
      case True
      with assms have "float_div_pos (- n) 1 = of_int (- n)"
        by (intro float_div_pos_int) simp_all
      with True show ?thesis by (simp add: float_div_def)
    next
      case pos: False
      with False assms have "float_div_pos n 1 = of_int n"
        by (intro float_div_pos_int) simp_all
      with False pos show ?thesis by (simp add: float_div_def)
    qed
  qed
  then show ?thesis
    by (simp add: fl_def quotient_of_of_int)
qed

lemma fl_numeral [simp]:
  "fl 0 = 0" "fl 1 = 1"
  using fl_of_int [of 0] fl_of_int [of 1] by simp_all

lemma fl_small_values:
  "fl 2 = 2" "fl 3 = 3" "fl 4 = 4" "fl 5 = 5" "fl 250 = 250"
  using fl_of_int [of 2] fl_of_int [of 3] fl_of_int [of 4] fl_of_int [of 5] fl_of_int [of 250]
  by simp_all

lemma fl_nonneg_int:
  assumes "0 \<le> n" and "0 < d"
  shows "0 \<le> fl (of_int n / of_int d)"
proof -
  obtain p q where pq: "quotient_of (of_int n / of_int d) = (p, q)"
    by (cases "quotient_of (rat_of_int n / rat_of_int d)")
  then have q: "0 < q" and eq: "(of_int n / of_int d :: rat) = of_int p / of_int q"
    by (simp_all add: quotient_of_denom_pos quotient_of_div)
  from assms have "(0::rat) \<le> of_int n / of_int d"
    by simp
  with eq q have p: "0 \<le> p"
    by (simp add: zero_le_divide_iff)
  have "0 \<le> float_div_pos p q" if "0 < p"
  proof -
    have pw: "0 < pow2 e" for e
      by (simp add: pow2_def)
    have rnd: "0 \<le> round_half_even x" if "0 \<le> x" for x
      using that by (auto simp add: round_half_even_def Let_def)
    have gen: "0 \<le> of_int (round_half_even (x / u)) * u" if "0 < u" and "0 \<le> x" for x u :: rat
      using that rnd [of "x / u"] by (intro mult_nonneg_nonneg) simp_all
    from that q have "(0::rat) \<le> of_int p / of_int q"
      by simp
    then show ?thesis
      unfolding float_div_pos_def Let_def by (intro gen pw)
  qed
  with p have "0 \<le> float_div p q"
    by (simp add: float_div_def)
  with pq show ?thesis
    by (simp add: fl_def)
qed



lemma fl_quarter: "fl (1 / 4) = 1 / 4"
proof -
  have "quotient_of (Fract 1 4) = (1, 4)"
    by (simp add: quotient_of_Fract Rat.normalize_def)
  then have q: "quotient_of (1 / 4) = (1, 4)"
    by (simp add: Fract_of_int_quotient)
  have b: "bitlen 1 = 1" "bitlen 4 = 3"
    using bitlen_eqI [of 1 1] bitlen_eqI [of 3 4] by simp_all
  have "float_div_pos 1 4 = of_int (round_div (1 * 2 ^ 54) 4) / 2 ^ 54"
    by (rule float_div_pos_scaled [where a = "-2"]) (simp_all add: b pow2_def)
  also have "round_div (1 * 2 ^ 54) 4 = 2 ^ 52"
    by (simp add: round_div_def Let_def)
  finally show ?thesis
    by (simp add: fl_def q float_div_def)
qed

section \<open>Properties of the window statistic and the signals\<close>

lemma length_rolling_mean: "length (rolling_mean xs w) = length xs"
  by (simp add: rolling_mean_def)

lemma rolling_mean_nth:
  "i < length xs \<Longrightarrow> rolling_mean xs w ! i = rolling_mean_at xs w i"
  by (simp add: rolling_mean_def)

lemma observations_simps [simp]:
  "observations [] = []"
  "observations (None # cs) = observations cs"
  "observations (Some v # cs) = v # observations cs"
  by (simp_all add: observations_def)

lemma observations_append: "observations (xs @ ys) = observations xs @ observations ys"
  by (simp add: observations_def)

lemma nobs_add_mean:
  "nobs (add_mean c st) = nobs st + length (observations [c])"
  by (cases c) (simp_all add: add_mean_def Let_def)

lemma nobs_remove_mean:
  "nobs (remove_mean c st) = nobs st - length (observations [c])"
  by (cases c) (simp_all add: remove_mean_def Let_def)

lemma nobs_fold_add:
  "nobs (fold add_mean cs st) = nobs st + length (observations cs)"
proof (induction cs arbitrary: st)
  case Nil
  then show ?case by simp
next
  case (Cons c cs)
  have "observations (c # cs) = observations [c] @ observations cs"
    using observations_append [of "[c]" cs] by simp
  with Cons show ?case
    by (simp add: nobs_add_mean)
qed

lemma nobs_fold_remove:
  "nobs (fold remove_mean cs st) = nobs st - length (observations cs)"
proof (induction cs arbitrary: st)
  case Nil
  then show ?case by simp
next
  case (Cons c cs)
  have "observations (c # cs) = observations [c] @ observations cs"
    using observations_append [of "[c]" cs] by simp
  with Cons show ?case
    by (simp add: nobs_remove_mean)
qed

lemma values_between_append:
  assumes "a \<le> b" and "b \<le> c"
  shows "values_between xs a c = values_between xs a b @ values_between xs b c"
proof -
  from assms have "[a..<c] = [a..<b] @ [b..<c]"
    by (metis le_Suc_ex upt_add_eq_append)
  then show ?thesis
    by (simp add: values_between_def)
qed

lemma window_mono:
  "window_start w i \<le> window_start w (Suc i)" "window_end w i \<le> window_end w (Suc i)"
  "window_start w i \<le> window_end w i"
  by (auto simp add: window_start_def window_end_def)

lemma nobs_roll_state:
  "nobs (roll_state xs w i)
     = length (observations (values_between xs (window_start w i) (window_end w i)))"
proof (induction i)
  case 0
  show ?case
    by (simp add: nobs_fold_add mean_setup_def)
next
  case (Suc i)
  let ?s = "window_start w (Suc i)" and ?e = "window_end w (Suc i)"
  let ?a = "window_start w i" and ?b = "window_end w i"
  show ?case
  proof (cases "?b \<le> ?s")
    case True
    then show ?thesis
      by (simp add: Let_def nobs_fold_add mean_setup_def)
  next
    case False
    then have se: "?s \<le> ?b" by simp
    have old: "values_between xs ?a ?b = values_between xs ?a ?s @ values_between xs ?s ?b"
      using window_mono(1) se by (rule values_between_append)
    have new: "values_between xs ?s ?e = values_between xs ?s ?b @ values_between xs ?b ?e"
      using se window_mono(2) by (rule values_between_append)
    from False have "nobs (roll_state xs w (Suc i))
        = nobs (roll_state xs w i) - length (observations (values_between xs ?a ?s))
          + length (observations (values_between xs ?b ?e))"
      by (simp add: Let_def nobs_fold_add nobs_fold_remove)
    also have "\<dots> = length (observations (values_between xs ?s ?e))"
      unfolding Suc.IH old new by (simp add: observations_append)
    finally show ?thesis .
  qed
qed

lemma length_observations_le: "length (observations cs) \<le> length cs"
  by (simp add: observations_def)


lemma observations_no_nan:
  assumes "None \<notin> set cs"
  shows "observations cs = map the cs"
proof -
  from assms have "\<forall>c\<in>set cs. c \<noteq> None"
    by metis
  then have "filter (\<lambda>c. c \<noteq> None) cs = cs"
    by (rule filter_True)
  then show ?thesis
    by (simp add: observations_def)
qed

lemma rolling_window_full:
  assumes "1 \<le> w" "w - 1 \<le> i" "i < length xs"
  shows "rolling_window xs w i = take w (drop (Suc i - w) xs)"
    and "length (rolling_window xs w i) = w"
proof -
  from assms have eq: "Suc i - (Suc i - w) = w" by arith
  show "rolling_window xs w i = take w (drop (Suc i - w) xs)"
    by (simp add: rolling_window_def drop_take eq)
  from assms show "length (rolling_window xs w i) = w"
    by (simp add: rolling_window_def)
qed

lemma rolling_window_short:
  assumes "i < w - 1"
  shows "length (rolling_window xs w i) < w"
  using assms by (simp add: rolling_window_def)

lemma add_mean_exact:
  assumes "exact_state st ns" and "0 \<le> n" and "0 \<le> sum_list ns"
    and "sum_list ns + n < 2 ^ 53"
  shows "exact_state (add_mean (Some (of_int n)) st) (ns @ [n])"
proof -
  let ?s = "sum_list ns"
  from assms have n: "fl (of_int n) = of_int n"
    by (intro fl_of_int) simp
  from assms have t: "fl (of_int ?s + of_int n) = of_int ?s + of_int n"
    using fl_of_int [of "?s + n"] by simp
  have z: "fl (of_int ?s + of_int n - of_int ?s) = of_int n"
    using n by simp
  from assms(2) have nn: "\<not> (of_int n :: rat) < 0"
    by simp
  have run: "\<forall>m\<in>set (drop (length ns - k) ns @ [n]). (Some (of_int n) :: rat option) = Some (of_int m)"
    if "k = 0 \<or> (\<forall>m\<in>set (drop (length ns - k) ns). m = n)" for k
    using that by auto
  from assms(1) assms(2) show ?thesis
    unfolding exact_state_def add_mean_def Let_def
    by (auto simp add: n t z Suc_diff_le)
qed

lemma remove_mean_exact:
  assumes "exact_state st (n # ns)" and "0 \<le> n" and "0 \<le> sum_list ns"
    and "n + sum_list ns < 2 ^ 53"
  shows "exact_state (remove_mean (Some (of_int n)) st) ns"
proof -
  let ?s = "sum_list ns"
  from assms have n: "fl (- of_int n) = - of_int n"
    using fl_of_int [of "- n"] by simp
  from assms have t: "fl (of_int ?s) = of_int ?s"
    by (intro fl_of_int) simp
  have sub: "set (drop (length ns - k) ns) \<subseteq> set (drop (Suc (length ns) - k) (n # ns))" for k
  proof (cases "k \<le> length ns")
    case True
    then show ?thesis by (simp add: Suc_diff_le)
  next
    case False
    then have "length ns - k = 0" and "Suc (length ns) - k = 0"
      by simp_all
    then show ?thesis by auto
  qed
  from assms(1) assms(2) sub [of "num_consecutive_same_value st"] show ?thesis
    unfolding exact_state_def remove_mean_def Let_def
    by (auto simp add: n t)
qed

lemma fold_add_mean_exact:
  assumes "exact_state st ns" and "\<forall>n\<in>set (ns @ ms). 0 \<le> n"
    and "sum_list (ns @ ms) < 2 ^ 53"
  shows "exact_state (fold add_mean (map (\<lambda>n. Some (of_int n)) ms) st) (ns @ ms)"
  using assms
proof (induction ms arbitrary: st ns)
  case Nil
  then show ?case by simp
next
  case (Cons m ms)
  from Cons.prems(2) have nn: "0 \<le> sum_list ns" "0 \<le> sum_list ms" "0 \<le> m"
    by (simp_all add: sum_list_nonneg)
  with Cons.prems(3) have "sum_list ns + m < 2 ^ 53"
    by simp
  with Cons.prems(1) nn have "exact_state (add_mean (Some (of_int m)) st) (ns @ [m])"
    by (intro add_mean_exact)
  moreover from Cons.prems(2) have "\<forall>n\<in>set ((ns @ [m]) @ ms). 0 \<le> n"
    by simp
  moreover from Cons.prems(3) have "sum_list ((ns @ [m]) @ ms) < 2 ^ 53"
    by simp
  ultimately have "exact_state (fold add_mean (map (\<lambda>n. Some (of_int n)) ms)
                     (add_mean (Some (of_int m)) st)) ((ns @ [m]) @ ms)"
    by (rule Cons.IH)
  then show ?case by simp
qed

lemma fold_remove_mean_exact:
  assumes "exact_state st (ms @ ns)" and "\<forall>n\<in>set (ms @ ns). 0 \<le> n"
    and "sum_list (ms @ ns) < 2 ^ 53"
  shows "exact_state (fold remove_mean (map (\<lambda>n. Some (of_int n)) ms) st) ns"
  using assms
proof (induction ms arbitrary: st)
  case Nil
  then show ?case by simp
next
  case (Cons m ms)
  from Cons.prems(2) have nn: "0 \<le> sum_list (ms @ ns)" "0 \<le> m"
    by (simp_all add: sum_list_nonneg)
  from Cons.prems(3) have "m + sum_list (ms @ ns) < 2 ^ 53"
    by simp
  with Cons.prems(1) nn have "exact_state (remove_mean (Some (of_int m)) st) (ms @ ns)"
    by (intro remove_mean_exact) simp_all
  moreover from Cons.prems(2) have "\<forall>n\<in>set (ms @ ns). 0 \<le> n"
    by simp
  moreover from Cons.prems(3) nn have "sum_list (ms @ ns) < 2 ^ 53"
    by simp
  ultimately have "exact_state (fold remove_mean (map (\<lambda>n. Some (of_int n)) ms)
                     (remove_mean (Some (of_int m)) st)) ns"
    by (rule Cons.IH)
  then show ?case by simp
qed

lemma sum_list_window_bound:
  fixes ms :: "int list"
  assumes "\<forall>n\<in>set ms. n * int w < b" and "length ms \<le> w" and "0 < b"
  shows "sum_list ms < b"
proof -
  have "sum_list ms * int w \<le> int (length ms) * (b - 1)"
    using assms(1)
  proof (induction ms)
    case Nil
    then show ?case by simp
  next
    case (Cons m ms)
    then have "m * int w \<le> b - 1" and "sum_list ms * int w \<le> int (length ms) * (b - 1)"
      by simp_all
    then show ?case
      by (simp add: algebra_simps)
  qed
  also from assms(2,3) have "\<dots> \<le> int w * (b - 1)"
    by (intro mult_right_mono) simp_all
  finally have "sum_list ms * int w \<le> (b - 1) * int w"
    by (simp add: mult.commute)
  moreover have "0 < w \<or> ms = []"
    using assms(2) by (cases ms) auto
  ultimately show ?thesis
    using assms(3) by auto
qed

lemma values_between_map:
  assumes "b \<le> length zs"
  shows "values_between (map f zs) a b = map f (values_between zs a b)"
  using assms by (simp add: values_between_def)

lemma values_between_set:
  assumes "b \<le> length zs"
  shows "set (values_between zs a b) \<subseteq> set zs"
  using assms by (auto simp add: values_between_def)

lemma length_values_between: "length (values_between zs a b) = b - a"
  by (simp add: values_between_def)

lemma window_length:
  "window_end w i - window_start w i \<le> w"
  by (auto simp add: window_start_def window_end_def)

lemma window_end_le:
  assumes "i < n"
  shows "window_end w i \<le> n"
  using assms by (simp add: window_start_def window_end_def)

lemma mean_setup_exact: "exact_state (mean_setup xs s) []"
  by (simp add: exact_state_def mean_setup_def)

lemma window_exact:
  fixes zs :: "int list"
  assumes "\<forall>n\<in>set zs. 0 \<le> n \<and> n * int w < 2 ^ 53" and "i < length zs"
  shows "\<forall>n\<in>set (values_between zs (window_start w i) (window_end w i)). 0 \<le> n"
    and "sum_list (values_between zs (window_start w i) (window_end w i)) < 2 ^ 53"
proof -
  let ?ms = "values_between zs (window_start w i) (window_end w i)"
  from assms(2) have sub: "set ?ms \<subseteq> set zs"
    by (intro values_between_set window_end_le)
  with assms(1) show "\<forall>n\<in>set ?ms. 0 \<le> n"
    by auto
  from sub assms(1) have "\<forall>n\<in>set ?ms. n * int w < 2 ^ 53"
    by auto
  then show "sum_list ?ms < 2 ^ 53"
    by (rule sum_list_window_bound) (simp_all add: window_length length_values_between)
qed

lemma roll_state_exact:
  fixes zs :: "int list"
  assumes "\<forall>n\<in>set zs. 0 \<le> n \<and> n * int w < 2 ^ 53" and "i < length zs"
  shows "exact_state (roll_state (map (\<lambda>n. Some (of_int n)) zs) w i)
           (values_between zs (window_start w i) (window_end w i))"
  using assms(2)
proof (induction i)
  case 0
  let ?ms = "values_between zs (window_start w 0) (window_end w 0)"
  have "exact_state (fold add_mean (map (\<lambda>n. Some (of_int n)) ?ms)
          (mean_setup (map (\<lambda>n. Some (of_int n)) zs) (window_start w 0))) ([] @ ?ms)"
    using window_exact [OF assms(1) 0]
    by (intro fold_add_mean_exact mean_setup_exact) simp_all
  with 0 show ?case
    by (simp add: values_between_map window_end_le)
next
  case (Suc i)
  let ?xs = "map (\<lambda>n. Some (rat_of_int n)) zs"
  let ?s = "window_start w (Suc i)" and ?e = "window_end w (Suc i)"
  let ?a = "window_start w i" and ?b = "window_end w i"
  from Suc.prems have i: "i < length zs" by simp
  have e: "?e \<le> length zs" "?b \<le> length zs"
    using Suc.prems i by (simp_all add: window_end_le)
  have new: "\<forall>n\<in>set (values_between zs ?s ?e). 0 \<le> n"
    "sum_list (values_between zs ?s ?e) < 2 ^ 53"
    using window_exact [OF assms(1) Suc.prems] by simp_all
  show ?case
  proof (cases "?b \<le> ?s")
    case True
    have "exact_state (fold add_mean (map (\<lambda>n. Some (of_int n)) (values_between zs ?s ?e))
            (mean_setup ?xs ?s)) ([] @ values_between zs ?s ?e)"
      using new by (intro fold_add_mean_exact mean_setup_exact) simp_all
    with True e show ?thesis
      by (simp add: Let_def values_between_map)
  next
    case False
    then have se: "?s \<le> ?b" by simp
    have old: "values_between zs ?a ?b = values_between zs ?a ?s @ values_between zs ?s ?b"
      using window_mono(1) se by (rule values_between_append)
    have split: "values_between zs ?s ?e = values_between zs ?s ?b @ values_between zs ?b ?e"
      using se window_mono(2) by (rule values_between_append)
    have prev: "\<forall>n\<in>set (values_between zs ?a ?b). 0 \<le> n"
      "sum_list (values_between zs ?a ?b) < 2 ^ 53"
      using window_exact [OF assms(1) i] by simp_all
    from Suc.IH [OF i]
    have "exact_state (roll_state ?xs w i) (values_between zs ?a ?s @ values_between zs ?s ?b)"
      by (simp only: old)
    then have "exact_state
        (fold remove_mean (map (\<lambda>n. Some (of_int n)) (values_between zs ?a ?s))
           (roll_state ?xs w i)) (values_between zs ?s ?b)"
      using prev unfolding old by (rule fold_remove_mean_exact)
    then have "exact_state
        (fold add_mean (map (\<lambda>n. Some (of_int n)) (values_between zs ?b ?e))
          (fold remove_mean (map (\<lambda>n. Some (of_int n)) (values_between zs ?a ?s))
             (roll_state ?xs w i))) (values_between zs ?s ?b @ values_between zs ?b ?e)"
      using new unfolding split by (rule fold_add_mean_exact)
    moreover from se have "?s \<le> length zs"
      using e(2) by simp
    ultimately show ?thesis
      using False e by (simp add: Let_def values_between_map split)
  qed
qed

lemma calc_mean_exact:
  assumes "exact_state st ns" and "length ns = w" and "0 < w"
    and "\<forall>n\<in>set ns. 0 \<le> n" and "sum_list ns < 2 ^ 53"
  shows "calc_mean w st = Some (fl (of_int (sum_list ns) / of_nat w))"
proof (cases "nobs st \<le> num_consecutive_same_value st")
  case True
  with assms(1,2) have all: "\<forall>n\<in>set ns. prev_value st = Some (of_int n)"
    by (simp add: exact_state_def)
  from assms(2,3) obtain m where m: "m \<in> set ns"
    by (cases ns) auto
  with all have pv: "prev_value st = Some (of_int m)" by simp
  with all have "\<forall>n\<in>set ns. n = m"
    by simp
  then have "ns = replicate (length ns) m"
    by (simp add: replicate_length_same)
  then have "sum_list ns = int (length ns) * m"
    by (metis sum_list_replicate mult.commute of_nat_mult of_nat_id mult_of_nat_commute)
  with assms(2,3) have mean: "(of_int (sum_list ns) / of_nat w :: rat) = of_int m"
    by simp
  from assms(4,5) m have "\<bar>m\<bar> < 2 ^ 53"
    using member_le_sum_list [of m ns] sum_list_nonneg [of ns]
    by (smt (verit) member_le_sum_list)
  then have "fl (of_int m) = of_int m"
    by (rule fl_of_int)
  with True assms(1,2,3) pv mean show ?thesis
    by (simp add: calc_mean_def exact_state_def Let_def)
next
  case False
  from assms(4) have "0 \<le> sum_list ns"
    by (simp add: sum_list_nonneg)
  with assms(3) have "0 \<le> fl (of_int (sum_list ns) / of_int (int w))"
    by (intro fl_nonneg_int) simp_all
  then have "\<not> fl (of_int (sum_list ns) / of_nat w) < 0"
    by simp
  with False assms(1,2,3) show ?thesis
    by (simp add: calc_mean_def exact_state_def Let_def)
qed

lemma map_nth_upt:
  assumes "b \<le> length xs"
  shows "map ((!) xs) [a..<b] = drop a (take b xs)"
  using assms by (simp add: list_eq_iff_nth_eq)

lemma window_is_rolling_window:
  assumes "1 \<le> w" and "i < length xs"
  shows "values_between xs (window_start w i) (window_end w i) = rolling_window xs w i"
proof -
  from assms(1) have e: "window_end w i = Suc i" and s: "window_start w i = Suc i - w"
    by (simp_all add: window_start_def window_end_def)
  from assms(2) have "Suc i \<le> length xs"
    by simp
  then show ?thesis
    unfolding values_between_def rolling_window_def e s by (rule map_nth_upt)
qed

lemma rolling_mean_at_short:
  assumes "i < w - 1"
  shows "rolling_mean_at xs w i = None"
proof -
  from assms have "window_end w i - window_start w i < w"
    by (auto simp add: window_start_def window_end_def)
  then have "length (values_between xs (window_start w i) (window_end w i)) < w"
    by (simp add: length_values_between)
  then have "nobs (roll_state xs w i) < w"
    using length_observations_le
      [of "values_between xs (window_start w i) (window_end w i)"]
    by (simp only: nobs_roll_state)
  then show ?thesis
    by (simp add: rolling_mean_at_def calc_mean_def)
qed







text \<open>
  On integers that are not negative and small enough for every sum of a window to be a
  binary64 number, the running sum has no rounding error, and the statistic is the
  binary64 number nearest to the arithmetic mean of the window.
\<close>

lemma rolling_mean_at_exact:
  fixes zs :: "int list"
  assumes "1 \<le> w" and "w - 1 \<le> i" and "i < length zs"
    and "\<forall>n\<in>set zs. 0 \<le> n \<and> n * int w < 2 ^ 53"
  shows "rolling_mean_at (map (\<lambda>n. Some (of_int n)) zs) w i
           = map_option fl
               (arithmetic_mean (take w (drop (Suc i - w) (map (\<lambda>n. Some (of_int n)) zs))))"
proof -
  let ?ms = "values_between zs (window_start w i) (window_end w i)"
  have ms: "?ms = take w (drop (Suc i - w) zs)" and len: "length ?ms = w"
    using rolling_window_full [OF assms(1,2,3)]
    by (simp_all only: window_is_rolling_window [OF assms(1,3)])
  have "calc_mean w (roll_state (map (\<lambda>n. Some (of_int n)) zs) w i)
          = Some (fl (of_int (sum_list ?ms) / of_nat w))"
    using roll_state_exact [OF assms(4,3)] len assms(1) window_exact [OF assms(4,3)]
    by (intro calc_mean_exact) simp_all
  moreover have "arithmetic_mean (map (\<lambda>n. Some (of_int n)) ?ms)
                   = Some (of_int (sum_list ?ms) / of_nat w)"
  proof -
    from len assms(1) have "?ms \<noteq> []"
      by auto
    moreover have "sum_list (map rat_of_int ns) = of_int (sum_list ns)" for ns
      by (induction ns) simp_all
    moreover have "None \<notin> set (map (\<lambda>n. Some (rat_of_int n)) ?ms)"
      by auto
    ultimately show ?thesis
      using len by (simp add: arithmetic_mean_def comp_def)
  qed
  ultimately show ?thesis
    by (simp add: rolling_mean_at_def ms take_map drop_map)
qed

lemma getitem_float_length:
  "getitem df name = Inr (FloatSeries xs) \<Longrightarrow> length xs = len_df df"
  by (auto simp: getitem_def len_df_def Let_def split: if_splits)

lemma scenario_close:
  "getitem scenario_frame ''close'' = Inr (FloatSeries [Some 1, Some 2, Some 3, Some 4, Some 5])"
proof -
  have "[0..<5] = [0, 1, 2, 3, 4::nat]"
    by code_simp
  then show ?thesis
    by (simp add: getitem_def scenario_frame_def object_column_def fl_small_values)
qed

lemma astype_fillna_bool:
  "astype_int (fillna v (bool_astype_int bs)) = Inr (map (\<lambda>b. if b then 1 else 0) bs)"
proof -
  have "fillna v (bool_astype_int bs) = map (\<lambda>b. Some (if b then 1 else 0)) bs"
    by (simp add: fillna_def bool_astype_int_def)
  moreover have "None \<notin> set (map (\<lambda>b. Some (if b then 1 else (0::int))) bs)"
    by (induction bs) simp_all
  ultimately show ?thesis
    by (simp add: astype_int_def comp_def)
qed

lemma generate_signals_float:
  assumes "getitem df ''close'' = Inr (FloatSeries xs)" and "length rm = length xs"
  shows "generate_signals df rm = Inr (map (\<lambda>(x, y). if gt_cell x y then 1 else 0) (zip xs rm))"
  using assms
  by (simp add: generate_signals_def series_gt_def astype_fillna_bool comp_def case_prod_unfold)

lemma gt_cell_iff: "gt_cell x y \<longleftrightarrow> (\<exists>c s. x = Some c \<and> y = Some s \<and> s < c)"
  by (cases x; cases y) simp_all

lemma upt_5: "[0..<5] = [0, 1, 2, 3, 4::nat]"
  by code_simp

lemma scenario_window_series:
  "rolling_mean [Some 1, Some 2, Some 3, Some 4, Some 5] 3 = [None, None, Some 2, Some 3, Some 4]"
proof -
  let ?zs = "[1, 2, 3, 4, 5 :: int]"
  let ?xs = "[Some 1, Some 2, Some 3, Some 4, Some (5::rat)]"
  have small: "\<forall>n\<in>set ?zs. 0 \<le> n \<and> n * int 3 < 2 ^ 53"
    by simp
  have at: "rolling_mean_at ?xs 3 i
              = map_option fl (arithmetic_mean (take 3 (drop (Suc i - 3) ?xs)))"
    if "2 \<le> i" and "i < 5" for i
    using rolling_mean_at_exact [of 3 i ?zs] that small by simp
  have r0: "rolling_mean_at ?xs 3 0 = None" and r1: "rolling_mean_at ?xs 3 1 = None"
    by (simp_all add: rolling_mean_at_short)
  have r2: "rolling_mean_at ?xs 3 2 = Some 2"
    using at [of 2] by (simp add: arithmetic_mean_def fl_small_values)
  have r3: "rolling_mean_at ?xs 3 3 = Some 3"
    using at [of 3] by (simp add: arithmetic_mean_def fl_small_values)
  have r4: "rolling_mean_at ?xs 3 4 = Some 4"
    using at [of 4] by (simp add: arithmetic_mean_def fl_small_values)
  have len: "length ?xs = 5"
    by simp
  show ?thesis
    unfolding rolling_mean_def len upt_5 by (simp only: list.map r0 r1 r2 r3 r4)
qed








text \<open>
  Claim C3. On a table whose close column is numeric and a window series of the same
  length, \<^verbatim>\<open>generate_signals\<close> does not fail, and the signal of a row is 1 exactly
  when the statistic of that row is present and close is strictly greater than it; it is
  0 in every other case.
\<close>

theorem generate_signals_strict_comparison:
  assumes "getitem df ''close'' = Inr (FloatSeries xs)" and "length rm = length xs"
  shows "\<exists>sg. generate_signals df rm = Inr sg \<and> length sg = length xs \<and>
           (\<forall>i<length xs.
              sg ! i = (if \<exists>s. rm ! i = Some s \<and> (\<exists>c. xs ! i = Some c \<and> s < c) then 1 else 0))"
proof -
  let ?sg = "map (\<lambda>(x, y). if gt_cell x y then 1 else (0::int)) (zip xs rm)"
  have "?sg ! i = (if \<exists>s. rm ! i = Some s \<and> (\<exists>c. xs ! i = Some c \<and> s < c) then 1 else 0)"
    if "i < length xs" for i
    using that assms(2) by (auto simp: gt_cell_iff)
  moreover have "length ?sg = length xs"
    using assms(2) by simp
  ultimately show ?thesis
    using generate_signals_float [OF assms] by blast
qed

theorem generate_signals_strict_comparison_witness:
  "getitem scenario_frame ''close'' = Inr (FloatSeries [Some 1, Some 2, Some 3, Some 4, Some 5])
   \<and> length [None, Some 2, Some 3, Some 3, Some (4::rat)] = length [Some 1, Some 2, Some 3, Some 4, Some (5::rat)]
   \<and> (\<exists>sg. generate_signals scenario_frame [None, Some 2, Some 3, Some 3, Some 4] = Inr sg
        \<and> sg ! 0 = 0 \<and> sg ! 1 = 0 \<and> sg ! 2 = 0 \<and> sg ! 3 = 1 \<and> sg ! 4 = 1)"
proof -
  have len: "length [None, Some 2, Some 3, Some 3, Some (4::rat)]
               = length [Some 1, Some 2, Some 3, Some 4, Some (5::rat)]"
    by simp
  from generate_signals_strict_comparison [OF scenario_close len]
  obtain sg where run: "generate_signals scenario_frame [None, Some 2, Some 3, Some 3, Some 4] = Inr sg"
    and at: "\<And>i. i < 5 \<Longrightarrow> sg ! i =
        (if \<exists>s. [None, Some 2, Some 3, Some 3, Some (4::rat)] ! i = Some s
               \<and> (\<exists>c. [Some 1, Some 2, Some 3, Some 4, Some (5::rat)] ! i = Some c \<and> s < c)
         then 1 else 0)"
    by auto
  have "sg ! 0 = 0" using at [of 0] by simp
  moreover have "sg ! 1 = 0" using at [of 1] by simp
  moreover have "sg ! 2 = 0" using at [of 2] by simp
  moreover have "sg ! 3 = 1" using at [of 3] by simp
  moreover have "sg ! 4 = 1" using at [of 4] by simp
  ultimately show ?thesis
    using scenario_close run by simp
qed

text \<open>
  Claim C4, amended. On a table whose close column is numeric and for a window of at
  least 1 that fits a signed 64-bit integer, the window series and the signal series have
  as many entries as the table has rows, and the signal of every row
  \<open>i < window - 1\<close> is 0.
\<close>

theorem signals_aligned_and_zero_before_window:
  assumes "getitem df ''close'' = Inr (FloatSeries xs)" and "1 \<le> w" and "w < 2 ^ 63"
  shows "\<exists>st sg. compute_rolling_mean df (PInt w) = Inr st \<and> generate_signals df st = Inr sg
           \<and> length st = len_df df \<and> length sg = len_df df
           \<and> (\<forall>i<length sg. i < nat w - 1 \<longrightarrow> sg ! i = 0)"
proof -
  let ?st = "rolling_mean xs (nat w)"
  let ?sg = "map (\<lambda>(x, y). if gt_cell x y then 1 else (0::int)) (zip xs ?st)"
  from assms have run: "compute_rolling_mean df (PInt w) = Inr ?st"
    by (simp add: compute_rolling_mean_def)
  have sig: "generate_signals df ?st = Inr ?sg"
    by (rule generate_signals_float [OF assms(1)]) (simp add: length_rolling_mean)
  have len: "length xs = len_df df"
    by (rule getitem_float_length [OF assms(1)])
  have "?sg ! i = 0" if "i < length ?sg" "i < nat w - 1" for i
  proof -
    from that(1) have i: "i < length xs" by (simp add: length_rolling_mean)
    then have "?st ! i = None"
      by (simp add: rolling_mean_nth rolling_mean_at_short [OF that(2)])
    with i show ?thesis
      by (simp add: length_rolling_mean)
  qed
  with run sig len show ?thesis
    by (simp add: length_rolling_mean)
qed

theorem signals_aligned_and_zero_before_window_witness:
  "getitem scenario_frame ''close'' = Inr (FloatSeries [Some 1, Some 2, Some 3, Some 4, Some 5])
   \<and> (1::int) \<le> 3 \<and> (3::int) < 2 ^ 63
   \<and> (\<exists>st sg. compute_rolling_mean scenario_frame (PInt 3) = Inr st
        \<and> generate_signals scenario_frame st = Inr sg
        \<and> length st = 5 \<and> length sg = 5 \<and> sg ! 0 = 0 \<and> sg ! 1 = 0)"
proof -
  have w: "(1::int) \<le> 3" "(3::int) < 2 ^ 63" by simp_all
  have n: "len_df scenario_frame = 5"
    by (simp add: len_df_def scenario_frame_def)
  from signals_aligned_and_zero_before_window [OF scenario_close w]
  obtain st sg where run: "compute_rolling_mean scenario_frame (PInt 3) = Inr st"
    and sig: "generate_signals scenario_frame st = Inr sg"
    and len: "length st = 5" "length sg = 5"
    and at: "\<And>i. i < 5 \<Longrightarrow> i < nat 3 - 1 \<Longrightarrow> sg ! i = 0"
    unfolding n by auto
  have "sg ! 0 = 0" using at [of 0] by simp
  moreover have "sg ! 1 = 0" using at [of 1] by simp
  ultimately show ?thesis
    using scenario_close run sig len by auto
qed

text \<open>
  Claim C10. The fill step of \<^verbatim>\<open>generate_signals\<close> changes nothing: on every
  table and window series the function returns what the comparison converted to integers
  gives, failures included.
\<close>

theorem fillna_step_redundant:
  "generate_signals df rm = generate_signals_direct df rm"
  by (simp add: generate_signals_def generate_signals_direct_def astype_fillna_bool
      split: sum.split series.split)

text \<open>
  Claim C4 as stated fails: the window \<open>2^63\<close> is an integer of at least 1, the
  validation accepts it, and on the table of the first scenario
  \<^verbatim>\<open>compute_rolling_mean\<close> raises OverflowError, so the run has no window series
  and no signal series.
\<close>

theorem window_beyond_int64_raises:
  "load_config ''config.yaml'' (Loaded huge_window_config) = Inr huge_window_config
   \<and> subscript huge_window_config ''window'' = Inr (PInt (2 ^ 63))
   \<and> compute_rolling_mean scenario_frame (PInt (2 ^ 63))
       = Inl (Exn OverflowError ''Python int too large to convert to C long'')"
  by (simp add: load_config_def huge_window_config_def compute_rolling_mean_def scenario_close)

section \<open>Properties of the configuration check and of the run\<close>

lemma write_attempts_append:
  "write_attempts (xs @ ys) = write_attempts xs @ write_attempts ys"
  by (induction xs rule: write_attempts.induct) simp_all

lemma prepare_preserves:
  assumes "prepare ev a st = (r, st')"
  shows "output_file st' = output_file st"
    and "writes_done st' = writes_done st"
    and "write_attempts (events st') = write_attempts (events st)"
  using assms
  by (auto simp: prepare_def Let_def write_attempts_append split: sum.splits)


lemma error_out_schema:
  "failure_schema (error_out v e)" "\<not> success_schema (error_out v e)"
  by (simp_all add: error_out_def)

text \<open>
  Claim C9. The validation of \<^verbatim>\<open>load_config\<close> accepts booleans where an integer is
  asked for: a document whose seed is a boolean (true or false) passes the check of the
  seed, and a document whose window is the boolean true passes the check of the window
  (an integer that is at least 1), so such documents are returned as valid.
\<close>

theorem load_config_accepts_booleans:
  "load_config p (Loaded (PDict [(PStr ''seed'', PBool b), (PStr ''window'', PInt 3),
                                 (PStr ''version'', PStr v)]))
     = Inr (PDict [(PStr ''seed'', PBool b), (PStr ''window'', PInt 3),
                   (PStr ''version'', PStr v)])
   \<and> load_config p (Loaded (PDict [(PStr ''seed'', PInt 42), (PStr ''window'', PBool True),
                                   (PStr ''version'', PStr v)]))
     = Inr (PDict [(PStr ''seed'', PInt 42), (PStr ''window'', PBool True),
                   (PStr ''version'', PStr v)])"
  by (simp add: load_config_def)

lemma load_bool_window:
  "load_config p (Loaded bool_window_config) = Inr bool_window_config"
  by (simp add: load_config_def bool_window_config_def)

lemma load_scenario_frame:
  "load_data p (Frame scenario_frame) = Inr scenario_frame"
  by (simp add: load_data_def scenario_frame_def df_empty_def)

lemma prepare_bool_window:
  "prepare bool_window_env scenario_args st =
     (Inl (Exn ValueError ''window must be an integer 0 or greater''),
      st\<lparr>version := PStr ''v1'', events := events st @ [SeedApplied 1, InputRead]\<rparr>)"
  by (simp add: prepare_def bool_window_env_def scenario_env_def load_config_def
      bool_window_config_def load_scenario_frame np_random_seed_def compute_rolling_mean_def
      scenario_close Let_def)

text \<open>
  Claim C6, at the input where the code departs from it: the configuration with seed 1,
  window true and version v1 has a window that is not an integer, yet
  \<^verbatim>\<open>load_config\<close> returns it, and the run goes on to read the input file before it
  fails (in the window statistic) and returns 1.
\<close>

theorem boolean_window_reaches_data_loading:
  "load_config (arg_config scenario_args) (config_file bool_window_env) = Inr bool_window_config
   \<and> InputRead \<in> set (events (snd (main bool_window_env)))
   \<and> fst (main bool_window_env) = Returned 1"
proof -
  have a: "argv bool_window_env = Some scenario_args" "log_error bool_window_env = None"
    "write_outcome_at bool_window_env 0 = Written"
    "config_file bool_window_env = Loaded bool_window_config"
    by (simp_all add: bool_window_env_def scenario_env_def)
  show ?thesis
    by (simp add: main_def try_block_def prepare_bool_window a write_output_def load_bool_window)
qed





lemma scenario_rolling_mean:
  "compute_rolling_mean scenario_frame (PInt 3) = Inr [None, None, Some 2, Some 3, Some 4]"
  by (simp add: compute_rolling_mean_def scenario_close scenario_window_series)

lemma scenario_signals:
  "generate_signals scenario_frame [None, None, Some 2, Some 3, Some 4] = Inr [0, 0, 1, 1, 1]"
  by (simp add: generate_signals_float [OF scenario_close])

lemma prepare_scenario:
  assumes "config_file ev = Loaded scenario_config" and "input_file ev = Frame scenario_frame"
  shows "prepare ev a st =
     (Inr (scenario_config, scenario_frame, [0, 0, 1, 1, 1]),
      st\<lparr>version := PStr ''v1'', events := events st @ [SeedApplied 42, InputRead]\<rparr>)"
proof -
  have c: "load_config (arg_config a) (Loaded scenario_config) = Inr scenario_config"
    by (simp add: load_config_def scenario_config_def)
  have s: "subscript scenario_config ''version'' = Inr (PStr ''v1'')"
    "subscript scenario_config ''seed'' = Inr (PInt 42)"
    "subscript scenario_config ''window'' = Inr (PInt 3)"
    by (simp_all add: scenario_config_def)
  show ?thesis
    by (simp add: prepare_def assms c s np_random_seed_def load_scenario_frame
        scenario_rolling_mean scenario_signals Let_def)
qed

lemma write_output_effects:
  "write_attempts (events (snd (write_output ev d st)))
     = write_attempts (events st) @ [(d, write_outcome_at ev (writes_done st))]"
  "version (snd (write_output ev d st)) = version st"
  "writes_done (snd (write_output ev d st)) = Suc (writes_done st)"
  by (simp_all add: write_output_def Let_def write_attempts_append split: write_outcome.split)

lemma write_output_result:
  "fst (write_output ev d st) =
     (case write_outcome_at ev (writes_done st) of
        Written \<Rightarrow> None
      | OpenFails msg \<Rightarrow> Some (Exn OSError msg)
      | DumpFails msg \<Rightarrow> Some (Exn OSError msg))"
  "output_file (snd (write_output ev d st)) =
     (case write_outcome_at ev (writes_done st) of
        Written \<Rightarrow> Document d
      | OpenFails msg \<Rightarrow> output_file st
      | DumpFails msg \<Rightarrow> Unparsable)"
  by (simp_all add: write_output_def Let_def split: write_outcome.split)

lemma main_entered:
  assumes "argv ev = Some a" and "log_error ev = None"
  shows "main ev =
     (case try_block ev a \<lparr>version = PStr ''v1'', output_file = output_before ev,
                           writes_done = 0, events = []\<rparr> of
        (Inr u, st) \<Rightarrow> (Returned 0, st)
      | (Inl e, st) \<Rightarrow>
          (case write_output ev (error_out (version st) e) st of
             (Some e', st') \<Rightarrow> (Raised e', st')
           | (None, st') \<Rightarrow> (Returned 1, st')))"
  by (simp add: main_def assms)

lemma main_handler:
  assumes "argv ev = Some a" and "log_error ev = None"
    and "try_block ev a \<lparr>version = PStr ''v1'', output_file = output_before ev,
                          writes_done = 0, events = []\<rparr> = (Inl e, st)"
  shows "snd (main ev) = snd (write_output ev (error_out (version st) e) st)"
    and "fst (main ev) =
           (case fst (write_output ev (error_out (version st) e) st) of
              None \<Rightarrow> Returned 1 | Some e' \<Rightarrow> Raised e')"
  by (simp_all add: main_entered [OF assms(1,2)] assms(3) split: prod.split option.split)

lemma main_success:
  assumes "argv ev = Some a" and "log_error ev = None"
    and "try_block ev a \<lparr>version = PStr ''v1'', output_file = output_before ev,
                          writes_done = 0, events = []\<rparr> = (Inr u, st)"
  shows "main ev = (Returned 0, st)"
  by (simp add: main_entered [OF assms(1,2)] assms(3))

lemma try_block_prepare_fails:
  assumes "prepare ev a st0 = (Inl e, st1)"
  shows "try_block ev a st0 = (Inl e, st1)"
  by (simp add: try_block_def assms)

lemma try_block_metrics_fail:
  assumes "prepare ev a st0 = (Inr (cfg, df, signals), st1)"
    and "calculate_metrics signals (len_df df) cfg
           (elapsed_ms (start_time ev) (time_in_try ev)) = Inl e"
  shows "try_block ev a st0 = (Inl e, st1)"
  by (simp add: try_block_def assms)

lemma try_block_delivers:
  assumes "prepare ev a st0 = (Inr (cfg, df, signals), st1)"
    and "calculate_metrics signals (len_df df) cfg
           (elapsed_ms (start_time ev) (time_in_try ev)) = Inr m"
  shows "try_block ev a st0 =
     (case fst (write_output ev m st1) of
        Some e \<Rightarrow> (Inl e, snd (write_output ev m st1))
      | None \<Rightarrow>
          (case stdout_error ev of
             Some msg \<Rightarrow> (Inl (Exn OSError msg), snd (write_output ev m st1))
           | None \<Rightarrow>
               (Inr (), (snd (write_output ev m st1))
                  \<lparr>events := events (snd (write_output ev m st1)) @ [Echoed m]\<rparr>)))"
  by (simp add: try_block_def assms split: prod.split option.split)

lemma first_attempt_of_handler:
  assumes "argv ev = Some a" and "log_error ev = None"
    and "try_block ev a \<lparr>version = PStr ''v1'', output_file = output_before ev,
                          writes_done = 0, events = []\<rparr> = (Inl e, st)"
    and "write_attempts (events st) = []"
  shows "write_attempts (events (snd (main ev)))
           = [(error_out (version st) e, write_outcome_at ev (writes_done st))]"
  by (simp add: main_handler(1) [OF assms(1,2,3)] write_output_effects assms(4))

text \<open>
  Claim C8, amended. When the first write of a run is the write of the success document
  and it fails, the failure is caught by the handler of \<^verbatim>\<open>main\<close> like any other:
  the run makes exactly one more write, of the failure document that carries the text of
  the write error. If that second write succeeds, the run returns 1 and the failure
  document is at the output path; only if the second write fails too does an exception
  leave \<^verbatim>\<open>main\<close>, and the output path then holds what was there before or a
  truncated file.
\<close>

theorem failed_success_write_is_handled:
  assumes "write_attempts (events (snd (main ev))) = (m, oc) # rest"
    and "success_schema m"
    and "oc = OpenFails msg \<or> oc = DumpFails msg"
  shows "\<exists>oc'. rest = [(error_out (version (snd (main ev))) (Exn OSError msg), oc')] \<and>
           (if oc' = Written
            then fst (main ev) = Returned 1 \<and>
                 output_file (snd (main ev)) =
                   Document (error_out (version (snd (main ev))) (Exn OSError msg))
            else (\<exists>e. fst (main ev) = Raised e) \<and>
                 (output_file (snd (main ev)) = output_before ev \<or>
                  output_file (snd (main ev)) = Unparsable))"
proof -
  let ?st0 = "\<lparr>version = PStr ''v1'', output_file = output_before ev,
                writes_done = 0, events = []\<rparr>"
  from assms(1) obtain a where a: "argv ev = Some a"
    by (cases "argv ev") (simp_all add: main_def)
  from assms(1) a have l: "log_error ev = None"
    by (cases "log_error ev") (simp_all add: main_def)
  obtain r st1 where p: "prepare ev a ?st0 = (r, st1)"
    by (cases "prepare ev a ?st0")
  from prepare_preserves [OF p]
  have st1: "output_file st1 = output_before ev" "writes_done st1 = 0"
    "write_attempts (events st1) = []"
    by simp_all
  have handler_first: False if "try_block ev a ?st0 = (Inl e, st1)" for e
  proof -
    from first_attempt_of_handler [OF a l that st1(3)] assms(1)
    have "m = error_out (version st1) e" by simp
    with assms(2) error_out_schema(2) show False by simp
  qed
  show ?thesis
  proof (cases r)
    case (Inl e)
    with p have "try_block ev a ?st0 = (Inl e, st1)"
      by (simp add: try_block_prepare_fails)
    then show ?thesis using handler_first by blast
  next
    case (Inr x)
    then obtain cfg df signals where r: "r = Inr (cfg, df, signals)"
      by (cases x) auto
    note p' = p [unfolded r]
    let ?l = "elapsed_ms (start_time ev) (time_in_try ev)"
    show ?thesis
    proof (cases "calculate_metrics signals (len_df df) cfg ?l")
      case (Inl e)
      from try_block_metrics_fail [OF p' Inl] show ?thesis
        using handler_first by blast
    next
      case (Inr m0)
      note tb = try_block_delivers [OF p' Inr]
      let ?w = "snd (write_output ev m0 st1)"
      have w_att: "write_attempts (events ?w) = [(m0, write_outcome_at ev 0)]"
        by (simp add: write_output_effects st1)
      have w_ver: "version ?w = version st1" and w_done: "writes_done ?w = Suc 0"
        by (simp_all add: write_output_effects st1)
      have failed: ?thesis
        if f: "fst (write_output ev m0 st1) = Some (Exn OSError msg0)"
          and o: "write_outcome_at ev 0 = OpenFails msg0 \<or> write_outcome_at ev 0 = DumpFails msg0"
        for msg0
      proof -
        let ?e = "Exn OSError msg0"
        from tb f have t: "try_block ev a ?st0 = (Inl ?e, ?w)"
          by simp
        let ?d = "error_out (version st1) ?e"
        let ?oc1 = "write_outcome_at ev (Suc 0)"
        have s: "snd (main ev) = snd (write_output ev ?d ?w)"
          using main_handler(1) [OF a l t] by (simp add: w_ver)
        have x: "fst (main ev) =
            (case fst (write_output ev ?d ?w) of None \<Rightarrow> Returned 1 | Some e' \<Rightarrow> Raised e')"
          using main_handler(2) [OF a l t] by (simp add: w_ver)
        have att: "write_attempts (events (snd (main ev))) = [(m0, write_outcome_at ev 0), (?d, ?oc1)]"
          by (simp add: s write_output_effects st1)
        with assms(1) have eqs: "oc = write_outcome_at ev 0" "rest = [(?d, ?oc1)]"
          by simp_all
        from eqs(1) o assms(3) have msg: "msg0 = msg"
          by auto
        have ver: "version (snd (main ev)) = version st1"
          by (simp add: s write_output_effects w_ver)
        have ofw: "output_file ?w = output_before ev \<or> output_file ?w = Unparsable"
          using o by (auto simp: write_output_result st1)
        have fin: "if ?oc1 = Written
            then fst (main ev) = Returned 1 \<and> output_file (snd (main ev)) = Document ?d
            else (\<exists>e. fst (main ev) = Raised e) \<and>
                 (output_file (snd (main ev)) = output_before ev \<or>
                  output_file (snd (main ev)) = Unparsable)"
          using ofw by (cases ?oc1) (simp_all add: s x write_output_result w_done)
        from eqs(2) fin show ?thesis
          unfolding ver msg by blast
      qed
      show ?thesis
      proof (cases "write_outcome_at ev 0")
        case Written
        then have f: "fst (write_output ev m0 st1) = None"
          by (simp add: write_output_result st1)
        have "write_attempts (events (snd (main ev))) \<noteq> (m, oc) # rest"
        proof (cases "stdout_error ev")
          case None
          with tb f have "try_block ev a ?st0 = (Inr (), ?w\<lparr>events := events ?w @ [Echoed m0]\<rparr>)"
            by simp
          from main_success [OF a l this] w_att Written assms(3) show ?thesis
            by (auto simp: write_attempts_append)
        next
          case (Some msg')
          with tb f have t: "try_block ev a ?st0 = (Inl (Exn OSError msg'), ?w)"
            by simp
          from main_handler(1) [OF a l t] w_att Written assms(3) show ?thesis
            by (auto simp: write_output_effects)
        qed
        with assms(1) show ?thesis by simp
      next
        case (OpenFails msg0)
        then have "fst (write_output ev m0 st1) = Some (Exn OSError msg0)"
          by (simp add: write_output_result st1)
        with OpenFails show ?thesis by (intro failed) simp_all
      next
        case (DumpFails msg0)
        then have "fst (write_output ev m0 st1) = Some (Exn OSError msg0)"
          by (simp add: write_output_result st1)
        with DumpFails show ?thesis by (intro failed) simp_all
      qed
    qed
  qed
qed

section \<open>Evaluating the binary64 arithmetic of the metric\<close>

lemma bitlen_values:
"bitlen 1 = 1" "bitlen 3 = 2" "bitlen 5 = 3" "bitlen 6 = 3" "bitlen 10 = 4" "bitlen 62 = 6" "bitlen 63 = 6" "bitlen 160 = 8" "bitlen 6000 = 13" "bitlen 10000 = 14"
  using bitlen_eqI [of 1 1] bitlen_eqI [of 2 3] bitlen_eqI [of 3 5] bitlen_eqI [of 3 6] bitlen_eqI [of 4 10] bitlen_eqI [of 6 62] bitlen_eqI [of 6 63] bitlen_eqI [of 8 160] bitlen_eqI [of 13 6000] bitlen_eqI [of 14 10000]
  by simp_all

lemma float_div_3_5: "float_div 3 5 = 5404319552844595 / 9007199254740992"
proof -
  have "float_div_pos 3 5 = of_int (round_div (3 * 2 ^ 53) 5) / 2 ^ 53"
    by (rule float_div_pos_scaled [where a = "-1"]) (simp_all add: bitlen_values pow2_def)
  also have "round_div (3 * 2 ^ 53) 5 = 5404319552844595"
    by (simp add: round_div_def Let_def)
  finally show ?thesis
    by (simp add: float_div_def)
qed

lemma float_div_6_10: "float_div 6 10 = 5404319552844595 / 9007199254740992"
proof -
  have "float_div_pos 6 10 = of_int (round_div (6 * 2 ^ 53) 10) / 2 ^ 53"
    by (rule float_div_pos_scaled [where a = "-1"]) (simp_all add: bitlen_values pow2_def)
  also have "round_div (6 * 2 ^ 53) 10 = 5404319552844595"
    by (simp add: round_div_def Let_def)
  finally show ?thesis
    by (simp add: float_div_def)
qed

lemma float_div_6000: "float_div 6000 10000 = 5404319552844595 / 9007199254740992"
proof -
  have "float_div_pos 6000 10000 = of_int (round_div (6000 * 2 ^ 53) 10000) / 2 ^ 53"
    by (rule float_div_pos_scaled [where a = "-1"]) (simp_all add: bitlen_values pow2_def)
  also have "round_div (6000 * 2 ^ 53) 10000 = 5404319552844595"
    by (simp add: round_div_def Let_def)
  finally show ?thesis
    by (simp add: float_div_def)
qed

lemma py_round_fraction:
  assumes "0 < q"
  shows "py_round (Some (of_int p / of_int q)) nd
           = Some (float_div (round_div (p * 10 ^ nd) q) (10 ^ nd))"
proof -
  have "(of_int p / of_int q :: rat) * 10 ^ nd = of_int (p * 10 ^ nd) / of_int q"
    by simp
  then have "round_half_even ((of_int p / of_int q) * 10 ^ nd) = round_div (p * 10 ^ nd) q"
    using round_half_even_fraction [OF assms, of "p * 10 ^ nd"] by simp
  then show ?thesis
    by (simp add: py_round_def)
qed

lemma scenario_signal_rate:
  "py_round (series_mean [0, 0, 1, 1, 1]) 4 = Some (float_of_decimal 6 1)"
proof -
  have "series_mean [0, 0, 1, 1, 1]
          = Some (of_int 5404319552844595 / of_int 9007199254740992)"
    by (simp add: series_mean_def float_div_3_5)
  also have "py_round \<dots> 4
          = Some (float_div (round_div (5404319552844595 * 10 ^ 4) 9007199254740992) (10 ^ 4))"
    by (rule py_round_fraction) simp
  also have "round_div (5404319552844595 * 10 ^ 4) 9007199254740992 = 6000"
    by (simp add: round_div_def Let_def)
  finally show ?thesis
    by (simp add: float_div_6000 float_of_decimal_def float_div_6_10)
qed

lemma float_div_1_160: "float_div 1 160 = of_int 7205759403792794 / of_int (2 ^ 60)"
proof -
  have "float_div_pos 1 160 = of_int (round_div (1 * 2 ^ 60) 160) / 2 ^ 60"
    by (rule float_div_pos_scaled [where a = "-7"]) (simp_all add: bitlen_values pow2_def)
  also have "round_div (1 * 2 ^ 60) 160 = 7205759403792794"
    by (simp add: round_div_def Let_def)
  finally show ?thesis
    by (simp add: float_div_def)
qed

lemma float_div_63: "float_div 63 10000 = 7263405479023136 / 2 ^ 60"
proof -
  have "float_div_pos 63 10000 = of_int (round_div (63 * 2 ^ 60) 10000) / 2 ^ 60"
    by (rule float_div_pos_scaled [where a = "-8"]) (simp_all add: bitlen_values pow2_def)
  also have "round_div (63 * 2 ^ 60) 10000 = 7263405479023136"
    by (simp add: round_div_def Let_def)
  finally show ?thesis
    by (simp add: float_div_def)
qed

lemma float_div_62: "float_div 62 10000 = 7148113328562451 / 2 ^ 60"
proof -
  have "float_div_pos 62 10000 = of_int (round_div (62 * 2 ^ 60) 10000) / 2 ^ 60"
    by (rule float_div_pos_scaled [where a = "-8"]) (simp_all add: bitlen_values pow2_def)
  also have "round_div (62 * 2 ^ 60) 10000 = 7148113328562451"
    by (simp add: round_div_def Let_def)
  finally show ?thesis
    by (simp add: float_div_def)
qed

lemma tie_signals_sum: "sum_list tie_signals = 1" "length tie_signals = 160" "tie_signals \<noteq> []"
  by (simp_all add: tie_signals_def sum_list_replicate)

lemma tie_signal_rate:
  "py_round (series_mean tie_signals) 4 = Some (float_of_decimal 63 4)"
proof -
  have "series_mean tie_signals = Some (of_int 7205759403792794 / of_int (2 ^ 60))"
    by (simp add: series_mean_def tie_signals_sum float_div_1_160)
  also have "py_round \<dots> 4
          = Some (float_div (round_div (7205759403792794 * 10 ^ 4) (2 ^ 60)) (10 ^ 4))"
    by (rule py_round_fraction) simp
  also have "round_div (7205759403792794 * 10 ^ 4) (2 ^ 60) = 63"
    by (simp add: round_div_def Let_def)
  finally show ?thesis
    by (simp add: float_of_decimal_def)
qed

lemma tie_exact_rounding:
  "decimal_round_half_even (exact_mean tie_signals) 4 = 62 / 10 ^ 4"
proof -
  have "exact_mean tie_signals * 10 ^ 4 = of_int 125 / of_int 2"
    by (simp add: exact_mean_def tie_signals_sum)
  then have "round_half_even (exact_mean tie_signals * 10 ^ 4)
               = round_half_even (of_int 125 / of_int 2)"
    by (simp only:)
  also have "\<dots> = round_div 125 2"
    by (rule round_half_even_fraction) simp
  also have "\<dots> = 62"
    by (simp add: round_div_def Let_def)
  finally show ?thesis
    by (simp add: decimal_round_half_even_def)
qed

lemma tie_floats_differ: "float_of_decimal 63 4 \<noteq> float_of_decimal 62 4"
  by (simp add: float_of_decimal_def float_div_63 float_div_62)

section \<open>The runs of the examples\<close>

lemma scenario_metrics:
  "calculate_metrics [0, 0, 1, 1, 1] (len_df scenario_frame) scenario_config 250
     = Inr scenario_document"
  by (simp add: calculate_metrics_def scenario_signal_rate scenario_config_def
      scenario_document_def len_df_def scenario_frame_def)

lemma scenario_elapsed: "elapsed_ms 0 (1 / 4) = 250"
  by (simp add: elapsed_ms_def py_int_def fl_quarter fl_small_values)

lemma failing_first_write_env_fields:
  "argv failing_first_write_env = Some scenario_args"
  "log_error failing_first_write_env = None"
  "config_file failing_first_write_env = Loaded scenario_config"
  "input_file failing_first_write_env = Frame scenario_frame"
  "start_time failing_first_write_env = 0"
  "time_in_try failing_first_write_env = 1 / 4"
  "write_outcome_at failing_first_write_env 0 = OpenFails ''Disk quota exceeded''"
  "write_outcome_at failing_first_write_env (Suc 0) = Written"
  "output_before failing_first_write_env = Absent"
  by (simp_all add: failing_first_write_env_def scenario_env_def)

lemma failing_first_write_try:
  "try_block failing_first_write_env scenario_args
     \<lparr>version = PStr ''v1'', output_file = Absent, writes_done = 0, events = []\<rparr>
   = (Inl (Exn OSError ''Disk quota exceeded''),
      \<lparr>version = PStr ''v1'', output_file = Absent, writes_done = Suc 0,
       events = [SeedApplied 42, InputRead,
                 WriteAttempt scenario_document (OpenFails ''Disk quota exceeded'')]\<rparr>)"
proof -
  let ?st0 = "\<lparr>version = PStr ''v1'', output_file = Absent, writes_done = 0, events = []\<rparr>"
  have p: "prepare failing_first_write_env scenario_args ?st0 =
     (Inr (scenario_config, scenario_frame, [0, 0, 1, 1, 1]),
      ?st0\<lparr>version := PStr ''v1'', events := events ?st0 @ [SeedApplied 42, InputRead]\<rparr>)"
    by (rule prepare_scenario) (simp_all add: failing_first_write_env_fields)
  have m: "calculate_metrics [0, 0, 1, 1, 1] (len_df scenario_frame) scenario_config
             (elapsed_ms (start_time failing_first_write_env)
                (time_in_try failing_first_write_env)) = Inr scenario_document"
    by (simp add: failing_first_write_env_fields scenario_elapsed scenario_metrics)
  show ?thesis
    by (simp add: try_block_delivers [OF p m] write_output_def failing_first_write_env_fields)
qed

lemma failing_first_write_main:
  "main failing_first_write_env =
     (Returned 1,
      \<lparr>version = PStr ''v1'',
       output_file = Document (error_out (PStr ''v1'') (Exn OSError ''Disk quota exceeded'')),
       writes_done = Suc (Suc 0),
       events = [SeedApplied 42, InputRead,
                 WriteAttempt scenario_document (OpenFails ''Disk quota exceeded''),
                 WriteAttempt (error_out (PStr ''v1'') (Exn OSError ''Disk quota exceeded''))
                   Written]\<rparr>)"
  by (simp add: main_entered [OF failing_first_write_env_fields(1,2)]
      failing_first_write_env_fields failing_first_write_try write_output_def)

text \<open>
  Claim C8 as stated fails: in the run of the first scenario whose first write fails and
  whose second write succeeds, the failed write of the success document is caught and
  converted: the run returns 1 and the failure document with the text of the write error
  is at the output path.
\<close>

theorem failed_success_write_is_converted:
  "success_schema scenario_document
   \<and> write_attempts (events (snd (main failing_first_write_env)))
       = [(scenario_document, OpenFails ''Disk quota exceeded''),
          (error_out (PStr ''v1'') (Exn OSError ''Disk quota exceeded''), Written)]
   \<and> fst (main failing_first_write_env) = Returned 1
   \<and> output_file (snd (main failing_first_write_env))
       = Document (PDict [(PStr ''version'', PStr ''v1''), (PStr ''status'', PStr ''error''),
                          (PStr ''error_message'', PStr ''Disk quota exceeded'')])"
  by (simp add: failing_first_write_main scenario_document_def error_out_def)

theorem failed_success_write_is_handled_witness:
  "write_attempts (events (snd (main failing_first_write_env)))
       = (scenario_document, OpenFails ''Disk quota exceeded'')
         # [(error_out (PStr ''v1'') (Exn OSError ''Disk quota exceeded''), Written)]
   \<and> success_schema scenario_document
   \<and> fst (main failing_first_write_env) = Returned 1
   \<and> output_file (snd (main failing_first_write_env))
       = Document (error_out (version (snd (main failing_first_write_env)))
                     (Exn OSError ''Disk quota exceeded''))"
proof -
  have h1: "write_attempts (events (snd (main failing_first_write_env)))
       = (scenario_document, OpenFails ''Disk quota exceeded'')
         # [(error_out (PStr ''v1'') (Exn OSError ''Disk quota exceeded''), Written)]"
    by (simp add: failing_first_write_main)
  have h2: "success_schema scenario_document"
    by (simp add: scenario_document_def)
  have h3: "OpenFails ''Disk quota exceeded'' = OpenFails ''Disk quota exceeded''
            \<or> OpenFails ''Disk quota exceeded'' = DumpFails ''Disk quota exceeded''"
    by simp
  from failed_success_write_is_handled [OF h1 h2 h3] h1 h2 show ?thesis
    by auto
qed


theorem load_config_accepts_booleans_witness:
  "load_config ''config.yaml''
     (Loaded (PDict [(PStr ''seed'', PInt 42), (PStr ''window'', PBool True),
                     (PStr ''version'', PStr ''v1'')]))
     = Inr (PDict [(PStr ''seed'', PInt 42), (PStr ''window'', PBool True),
                   (PStr ''version'', PStr ''v1'')])"
  by (rule conjunct2 [OF load_config_accepts_booleans])

theorem boolean_window_reaches_data_loading_witness:
  "InputRead \<in> set (events (snd (main bool_window_env)))"
  by (rule conjunct1 [OF conjunct2 [OF boolean_window_reaches_data_loading]])


section \<open>The clock and the output\<close>

lemma prepare_clock:
  "prepare (ev\<lparr>start_time := t0, time_in_try := t1\<rparr>) a st = prepare ev a st"
  by (simp add: prepare_def cong: sum.case_cong)

lemma write_output_clock:
  "write_output (ev\<lparr>start_time := t0, time_in_try := t1\<rparr>) d st = write_output ev d st"
  by (simp add: write_output_def)

lemma calculate_metrics_latency:
  "calculate_metrics s n cfg l = Inl e \<Longrightarrow> calculate_metrics s n cfg l' = Inl e"
  "calculate_metrics s n cfg l = Inr m \<Longrightarrow>
     \<exists>m'. calculate_metrics s n cfg l' = Inr m' \<and> without_latency m' = without_latency m"
  by (auto simp: calculate_metrics_def Let_def split: sum.splits)

lemma agree_refl: "agree s s"
  by (simp add: agree_def)

lemma agree_events: "agree (s\<lparr>events := x\<rparr>) (t\<lparr>events := y\<rparr>) = agree s t"
  by (simp add: agree_def)

lemma write_output_agree:
  assumes "agree s t" and "without_latency d = without_latency d'"
  shows "fst (write_output ev d s) = fst (write_output ev d' t)"
    and "agree (snd (write_output ev d s)) (snd (write_output ev d' t))"
proof -
  from assms(1) have n: "writes_done s = writes_done t"
    by (simp add: agree_def)
  show "fst (write_output ev d s) = fst (write_output ev d' t)"
    by (simp add: write_output_result n)
  from assms show "agree (snd (write_output ev d s)) (snd (write_output ev d' t))"
    by (cases "write_outcome_at ev (writes_done t)")
       (simp_all add: agree_def write_output_effects write_output_result n)
qed

lemma field_without_latency:
  "k \<noteq> ''latency_ms'' \<Longrightarrow> field (without_latency d) k = field d k"
proof (cases d)
  case (PDict kvs)
  assume k: "k \<noteq> ''latency_ms''"
  have "map_of (filter (\<lambda>kv. fst kv \<noteq> PStr ''latency_ms'') kvs) (PStr k) = map_of kvs (PStr k)"
    using k by (induction kvs) auto
  with PDict show ?thesis by simp
qed simp_all

lemma main_clock:
  "fst (main (ev\<lparr>start_time := t0, time_in_try := t1\<rparr>)) = fst (main ev)
   \<and> agree (snd (main (ev\<lparr>start_time := t0, time_in_try := t1\<rparr>))) (snd (main ev))"
proof -
  let ?ev' = "ev\<lparr>start_time := t0, time_in_try := t1\<rparr>"
  let ?st0 = "\<lparr>version = PStr ''v1'', output_file = output_before ev,
                writes_done = 0, events = []\<rparr>"
  show ?thesis
  proof (cases "argv ev")
    case None
    then show ?thesis by (simp add: main_def agree_refl)
  next
    case (Some a)
    show ?thesis
    proof (cases "log_error ev")
      case (Some msg)
      with \<open>argv ev = Some a\<close> show ?thesis by (simp add: main_def agree_refl)
    next
      case None
      have a: "argv ev = Some a" "log_error ev = None" by fact+
      have a': "argv ?ev' = Some a" "log_error ?ev' = None" using a by simp_all
      have ob: "output_before ?ev' = output_before ev" by simp
      obtain r st1 where p: "prepare ev a ?st0 = (r, st1)"
        by (cases "prepare ev a ?st0")
      then have p': "prepare ?ev' a ?st0 = (r, st1)"
        by (simp add: prepare_clock)
      have handled: ?thesis
        if t: "try_block ev a ?st0 = (Inl e, s)" and t': "try_block ?ev' a ?st0 = (Inl e, s')"
          and ag: "agree s' s" for e s s'
      proof -
        from ag have v: "version s' = version s" by (simp add: agree_def)
        note h = main_handler [OF a t]
        note h' = main_handler [OF a' t' [folded ob]]
        have w: "fst (write_output ev (error_out (version s) e) s')
                   = fst (write_output ev (error_out (version s) e) s)"
          "agree (snd (write_output ev (error_out (version s) e) s'))
                 (snd (write_output ev (error_out (version s) e) s))"
          using write_output_agree [OF ag refl] by simp_all
        from h h' w show ?thesis
          by (simp add: write_output_clock v)
      qed
      show ?thesis
      proof (cases r)
        case (Inl e)
        from p p' Inl handled [OF _ _ agree_refl] show ?thesis
          by (simp add: try_block_prepare_fails)
      next
        case (Inr x)
        then obtain cfg df signals where r: "r = Inr (cfg, df, signals)"
          by (cases x) auto
        note q = p [unfolded r] and q' = p' [unfolded r]
        let ?l = "elapsed_ms (start_time ev) (time_in_try ev)"
        let ?l' = "elapsed_ms (start_time ?ev') (time_in_try ?ev')"
        show ?thesis
        proof (cases "calculate_metrics signals (len_df df) cfg ?l")
          case (Inl e)
          then have "calculate_metrics signals (len_df df) cfg ?l' = Inl e"
            by (rule calculate_metrics_latency)
          from try_block_metrics_fail [OF q Inl] try_block_metrics_fail [OF q' this]
          show ?thesis
            by (rule handled) (rule agree_refl)
        next
          case (Inr m)
          from calculate_metrics_latency(2) [OF Inr]
          obtain m' where m': "calculate_metrics signals (len_df df) cfg ?l' = Inr m'"
            and wl: "without_latency m' = without_latency m"
            by blast
          note tb = try_block_delivers [OF q Inr]
          note tb' = try_block_delivers [OF q' m']
          let ?w = "write_output ev m st1"
          let ?w' = "write_output ev m' st1"
          have wf: "fst ?w' = fst ?w" and wa: "agree (snd ?w') (snd ?w)"
            using write_output_agree [OF agree_refl wl] by simp_all
          have so: "stdout_error ?ev' = stdout_error ev" by simp
          show ?thesis
          proof (cases "fst ?w")
            case (Some e)
            with tb have t: "try_block ev a ?st0 = (Inl e, snd ?w)" by simp
            from Some wf tb' have t': "try_block ?ev' a ?st0 = (Inl e, snd ?w')"
              by (simp add: write_output_clock)
            from t t' wa show ?thesis by (rule handled)
          next
            case None
            show ?thesis
            proof (cases "stdout_error ev")
              case (Some msg)
              with None tb have t: "try_block ev a ?st0 = (Inl (Exn OSError msg), snd ?w)"
                by simp
              from Some None wf tb' have t': "try_block ?ev' a ?st0 = (Inl (Exn OSError msg), snd ?w')"
                by (simp add: write_output_clock)
              from t t' wa show ?thesis by (rule handled)
            next
              case no: None
              with None tb have t: "try_block ev a ?st0 =
                  (Inr (), (snd ?w)\<lparr>events := events (snd ?w) @ [Echoed m]\<rparr>)"
                by simp
              from no None wf tb' have t': "try_block ?ev' a ?st0 =
                  (Inr (), (snd ?w')\<lparr>events := events (snd ?w') @ [Echoed m']\<rparr>)"
                by (simp add: write_output_clock)
              from main_success [OF a t] main_success [OF a' t' [folded ob]] wa
              show ?thesis
                by (simp add: agree_events)
            qed
          qed
        qed
      qed
    qed
  qed
qed

text \<open>
  Claim C7. Two runs that differ only in the readings of the clock end alike and leave
  the same output: the same exit, and output documents that are equal once the
  \<^verbatim>\<open>latency_ms\<close> field is dropped, so version, rows_processed, metric, value, seed
  and status are equal.
\<close>

theorem latency_only_depends_on_clock:
  "fst (main (ev\<lparr>start_time := t0, time_in_try := t1\<rparr>)) = fst (main ev)
   \<and> content_without_latency (output_file (snd (main (ev\<lparr>start_time := t0, time_in_try := t1\<rparr>))))
       = content_without_latency (output_file (snd (main ev)))
   \<and> (\<forall>d d' k. output_file (snd (main ev)) = Document d
         \<longrightarrow> output_file (snd (main (ev\<lparr>start_time := t0, time_in_try := t1\<rparr>))) = Document d'
         \<longrightarrow> k \<noteq> ''latency_ms'' \<longrightarrow> field d' k = field d k)"
proof -
  let ?ev' = "ev\<lparr>start_time := t0, time_in_try := t1\<rparr>"
  from main_clock [where ev = ev and ?t0.0 = t0 and ?t1.0 = t1]
  have x: "fst (main ?ev') = fst (main ev)"
    and c: "content_without_latency (output_file (snd (main ?ev')))
              = content_without_latency (output_file (snd (main ev)))"
    by (simp_all add: agree_def)
  have "field d' k = field d k"
    if "output_file (snd (main ev)) = Document d" "output_file (snd (main ?ev')) = Document d'"
      "k \<noteq> ''latency_ms''" for d d' k
  proof -
    from c that(1,2) have "without_latency d' = without_latency d" by simp
    then have "field (without_latency d') k = field (without_latency d) k" by simp
    with that(3) show ?thesis by (simp add: field_without_latency)
  qed
  with x c show ?thesis by blast
qed

theorem latency_only_depends_on_clock_witness:
  "fst (main (scenario_env\<lparr>start_time := 5, time_in_try := 7\<rparr>)) = fst (main scenario_env)
   \<and> content_without_latency
         (output_file (snd (main (scenario_env\<lparr>start_time := 5, time_in_try := 7\<rparr>))))
       = content_without_latency (output_file (snd (main scenario_env)))"
  using latency_only_depends_on_clock [where ev = scenario_env and ?t0.0 = 5 and ?t1.0 = 7]
  by blast

section \<open>The value of the metric\<close>

lemma round_half_even_cases:
  "round_half_even x = \<lfloor>x\<rfloor> \<or> round_half_even x = \<lfloor>x\<rfloor> + 1"
  by (simp add: round_half_even_def Let_def)

lemma round_half_even_nonneg:
  assumes "0 \<le> x"
  shows "0 \<le> round_half_even x"
proof -
  from assms have "0 \<le> \<lfloor>x\<rfloor>" by simp
  with round_half_even_cases [of x] show ?thesis by auto
qed

lemma round_half_even_le:
  assumes "x \<le> of_int z"
  shows "round_half_even x \<le> z"
proof (cases "x = of_int z")
  case True
  then show ?thesis by (simp add: round_half_even_def)
next
  case False
  with assms have "x < of_int z" by simp
  then have "\<lfloor>x\<rfloor> < z" by (simp add: floor_less_iff)
  with round_half_even_cases [of x] show ?thesis by auto
qed

lemma round_half_even_error:
  "\<bar>of_int (round_half_even x) - x\<bar> \<le> 1 / 2"
proof -
  have "of_int \<lfloor>x\<rfloor> \<le> x" "x < of_int \<lfloor>x\<rfloor> + 1"
    by linarith+
  then show ?thesis
    by (auto simp: round_half_even_def Let_def abs_le_iff)
qed

lemma round_half_even_strict:
  assumes "x - of_int \<lfloor>x\<rfloor> \<noteq> 1 / 2"
  shows "\<bar>of_int (round_half_even x) - x\<bar> < 1 / 2"
proof -
  have "of_int \<lfloor>x\<rfloor> \<le> x" "x < of_int \<lfloor>x\<rfloor> + 1"
    by linarith+
  with assms show ?thesis
    by (auto simp: round_half_even_def Let_def abs_less_iff)
qed

lemma round_half_even_unique:
  assumes "\<bar>x - of_int r\<bar> < 1 / 2"
  shows "round_half_even x = r"
proof -
  from assms have lo: "of_int r - 1 / 2 < x" and hi: "x < of_int r + 1 / 2"
    by linarith+
  show ?thesis
  proof (cases "of_int r \<le> x")
    case True
    with hi have "\<lfloor>x\<rfloor> = r"
      by (intro floor_unique) linarith+
    with hi show ?thesis
      by (simp add: round_half_even_def Let_def)
  next
    case False
    with lo have "of_int (r - 1) \<le> x" "x < of_int (r - 1) + 1"
      by (simp_all only: of_int_diff of_int_1)
    then have "\<lfloor>x\<rfloor> = r - 1"
      by (rule floor_unique)
    with lo False show ?thesis
      by (simp add: round_half_even_def Let_def)
  qed
qed

lemma bitlen_mono:
  assumes "p \<le> q"
  shows "bitlen p \<le> bitlen q"
  using assms by (simp add: bitlen_def floorlog_mono nat_mono)

lemma float_div_pos_unit:
  assumes "0 < p" and "p \<le> q"
  shows "0 \<le> float_div_pos p q"
    and "float_div_pos p q \<le> 1"
    and "\<bar>float_div_pos p q - of_int p / of_int q\<bar> \<le> 1 / 2 ^ 53"
proof -
  define x :: rat where "x = of_int p / of_int q"
  define a where "a = bitlen p - bitlen q"
  define e where "e = (if pow2 a \<le> x then a else a - 1)"
  define k where "k = nat (52 - e)"
  define r where "r = round_half_even (x * 2 ^ k)"
  from assms have q: "0 < q" by simp
  from assms q have x: "0 < x" "x \<le> 1"
    by (simp_all add: x_def)
  from bitlen_mono [OF assms(2)] have "a \<le> 0"
    by (simp add: a_def)
  then have e: "e \<le> 0"
    by (simp add: e_def)
  then have k: "52 \<le> k" and ek: "e - 52 = - int k"
    by (simp_all add: k_def)
  have u: "pow2 (e - 52) = 1 / 2 ^ k"
    unfolding ek by (simp add: pow2_def)
  have f: "float_div_pos p q = of_int r / 2 ^ k"
    by (simp add: float_div_pos_def Let_def x_def [symmetric] a_def [symmetric]
        e_def [symmetric] u r_def)
  from x have "0 \<le> x * 2 ^ k" by simp
  then have r0: "0 \<le> r"
    unfolding r_def by (rule round_half_even_nonneg)
  from x have "x * 2 ^ k \<le> of_int (2 ^ k)"
    by (simp add: mult_le_cancel_right1)
  then have r1: "r \<le> 2 ^ k"
    unfolding r_def by (rule round_half_even_le)
  from r0 show "0 \<le> float_div_pos p q"
    by (simp add: f)
  from r1 have "(of_int r :: rat) \<le> 2 ^ k"
    by (metis of_int_le_iff of_int_numeral of_int_power)
  then show "float_div_pos p q \<le> 1"
    by (simp add: f divide_le_eq)
  have "\<bar>of_int r - x * 2 ^ k\<bar> \<le> 1 / 2"
    unfolding r_def by (rule round_half_even_error)
  then have s1: "\<bar>of_int r - x * 2 ^ k\<bar> / 2 ^ k \<le> (1 / 2) / 2 ^ k"
    by (rule divide_right_mono) simp
  have s2: "\<bar>of_int r / 2 ^ k - x\<bar> = \<bar>of_int r - x * 2 ^ k\<bar> / 2 ^ k"
  proof -
    have "(of_int r - x * 2 ^ k) / 2 ^ k = of_int r / 2 ^ k - x"
      by (simp add: diff_divide_distrib)
    then have "\<bar>of_int r / 2 ^ k - x\<bar> = \<bar>(of_int r - x * 2 ^ k) / 2 ^ k\<bar>"
      by (simp only:)
    also have "\<dots> = \<bar>of_int r - x * 2 ^ k\<bar> / \<bar>2 ^ k\<bar>"
      by (rule abs_divide)
    finally show ?thesis by simp
  qed
  have s3: "(1 / 2) / (2::rat) ^ k \<le> 1 / 2 ^ 53"
  proof -
    from k have "(2::rat) ^ 53 \<le> 2 ^ Suc k"
      by (intro power_increasing) simp_all
    then have "1 / (2::rat) ^ Suc k \<le> 1 / 2 ^ 53"
      by (intro divide_left_mono) simp_all
    then show ?thesis by simp
  qed
  from s1 s3 have "\<bar>of_int r - x * 2 ^ k\<bar> / 2 ^ k \<le> 1 / 2 ^ 53"
    by (rule order_trans)
  then have "\<bar>of_int r / 2 ^ k - x\<bar> \<le> 1 / 2 ^ 53"
    by (simp only: s2)
  then show "\<bar>float_div_pos p q - of_int p / of_int q\<bar> \<le> 1 / 2 ^ 53"
    by (simp only: f x_def)
qed

lemma float_div_unit:
  assumes "0 \<le> p" and "p \<le> q" and "0 < q"
  shows "0 \<le> float_div p q"
    and "float_div p q \<le> 1"
    and "\<bar>float_div p q - of_int p / of_int q\<bar> \<le> 1 / 2 ^ 53"
proof -
  show "0 \<le> float_div p q"
    using assms float_div_pos_unit(1) [of p q] by (cases "p = 0") (simp_all add: float_div_def)
  show "float_div p q \<le> 1"
    using assms float_div_pos_unit(2) [of p q] by (cases "p = 0") (simp_all add: float_div_def)
  show "\<bar>float_div p q - of_int p / of_int q\<bar> \<le> 1 / 2 ^ 53"
    using assms float_div_pos_unit(3) [of p q] by (cases "p = 0") (simp_all add: float_div_def)
qed

lemma signals_sum_bounds:
  assumes "set s \<subseteq> {0, 1}"
  shows "0 \<le> sum_list s" and "sum_list s \<le> int (length s)"
  using assms by (induction s) auto

lemma value_of_metrics:
  assumes "calculate_metrics s n cfg l = Inr d"
  shows "field d ''value'' = Some (float_val (py_round (series_mean s) 4))"
  using assms by (auto simp: calculate_metrics_def Let_def split: sum.splits)

lemma signal_rate_explicit:
  assumes "s \<noteq> []"
  shows "py_round (series_mean s) 4 =
     Some (float_div (round_half_even (float_div (sum_list s) (int (length s)) * 10 ^ 4))
             (10 ^ 4))"
  using assms by (simp add: py_round_def series_mean_def)

lemma round_scaled_unit:
  assumes "0 \<le> m" and "m \<le> 1"
  shows "0 \<le> round_half_even (m * 10 ^ 4)" and "round_half_even (m * 10 ^ 4) \<le> 10 ^ 4"
proof -
  from assms(1) have "0 \<le> m * 10 ^ 4" by simp
  then show "0 \<le> round_half_even (m * 10 ^ 4)"
    by (rule round_half_even_nonneg)
  from assms(2) have "m * 10 ^ 4 \<le> of_int (10 ^ 4)" by simp
  then show "round_half_even (m * 10 ^ 4) \<le> 10 ^ 4"
    by (rule round_half_even_le)
qed

lemma fraction_gap:
  assumes "0 < n" and "\<bar>of_int A / of_int n :: rat\<bar> < 1 / 2"
  shows "\<bar>of_int A / of_int n :: rat\<bar> \<le> 1 / 2 - 1 / (2 * of_int n)"
proof -
  from assms(1) have n: "(0::rat) < of_int n" by simp
  have ab: "\<bar>of_int A / of_int n :: rat\<bar> = of_int \<bar>A\<bar> / of_int n"
    using n by (simp add: abs_divide)
  from assms(2) n have "(of_int (2 * \<bar>A\<bar>) :: rat) < of_int n"
    unfolding ab by (simp add: field_simps)
  then have "2 * \<bar>A\<bar> < n"
    by (simp only: of_int_less_iff)
  then have "2 * \<bar>A\<bar> \<le> n - 1"
    by simp
  then have "(of_int (2 * \<bar>A\<bar>) :: rat) \<le> of_int (n - 1)"
    by (simp only: of_int_le_iff)
  then have "(of_int \<bar>A\<bar> :: rat) * 2 \<le> of_int n - 1"
    by simp
  then have "(of_int \<bar>A\<bar> :: rat) / of_int n \<le> 1 / 2 - 1 / (2 * of_int n)"
    using n by (simp add: field_simps)
  then show ?thesis
    by (simp only: ab)
qed

lemma rounding_agrees_off_ties:
  assumes k: "0 \<le> k" "k \<le> n" and n: "0 < n" "n < 2 ^ 38"
    and nt: "(of_int k / of_int n * 10 ^ 4 :: rat)
               - of_int \<lfloor>of_int k / of_int n * 10 ^ 4 :: rat\<rfloor> \<noteq> 1 / 2"
  shows "round_half_even (float_div k n * 10 ^ 4)
           = round_half_even (of_int k / of_int n * 10 ^ 4)"
proof -
  define y :: rat where "y = of_int k / of_int n * 10 ^ 4"
  define r where "r = round_half_even y"
  define m where "m = float_div k n"
  from n have n0: "(0::rat) < of_int n" by simp
  have strict: "\<bar>of_int r - y\<bar> < 1 / 2"
    unfolding r_def using nt [folded y_def] by (rule round_half_even_strict)
  have "of_int r - y = of_int (r * n - k * 10 ^ 4) / of_int n"
    using n0 by (simp add: y_def field_simps)
  with strict fraction_gap [OF n(1), of "r * n - k * 10 ^ 4"]
  have gap: "\<bar>of_int r - y\<bar> \<le> 1 / 2 - 1 / (2 * of_int n)"
    by simp
  have "\<bar>m - of_int k / of_int n\<bar> \<le> 1 / 2 ^ 53"
    unfolding m_def using k n(1) by (rule float_div_unit)
  then have "\<bar>m - of_int k / of_int n\<bar> * 10 ^ 4 \<le> 1 / 2 ^ 53 * 10 ^ 4"
    by (rule mult_right_mono) simp
  moreover have "\<bar>m - of_int k / of_int n\<bar> * 10 ^ 4 = \<bar>m * 10 ^ 4 - y\<bar>"
  proof -
    have "m * 10 ^ 4 - y = (m - of_int k / of_int n) * 10 ^ 4"
      by (simp add: y_def algebra_simps)
    then have "\<bar>m * 10 ^ 4 - y\<bar> = \<bar>m - of_int k / of_int n\<bar> * \<bar>10 ^ 4\<bar>"
      by (simp only: abs_mult)
    then show ?thesis by simp
  qed
  ultimately have err: "\<bar>m * 10 ^ 4 - y\<bar> \<le> 1 / 2 ^ 53 * 10 ^ 4"
    by simp
  have small: "1 / 2 ^ 53 * 10 ^ 4 < 1 / (2 * (of_int n :: rat))"
  proof -
    from n(2) have "n * (2 * 10 ^ 4) < 2 ^ 38 * (2 * 10 ^ 4)"
      by simp
    also have "\<dots> < (2::int) ^ 53"
      by simp
    finally have "(of_int (n * (2 * 10 ^ 4)) :: rat) < of_int (2 ^ 53)"
      by (simp only: of_int_less_iff)
    then have "(of_int n :: rat) * (2 * 10 ^ 4) < 2 ^ 53"
      by simp
    with n0 show ?thesis
      by (simp add: field_simps)
  qed
  have "\<bar>m * 10 ^ 4 - of_int r\<bar> \<le> \<bar>m * 10 ^ 4 - y\<bar> + \<bar>of_int r - y\<bar>"
    by linarith
  with err gap small have "\<bar>m * 10 ^ 4 - of_int r\<bar> < 1 / 2"
    by linarith
  then have "round_half_even (m * 10 ^ 4) = r"
    by (rule round_half_even_unique)
  then show ?thesis
    by (simp only: m_def r_def y_def)
qed

lemma exact_mean_fraction:
  "exact_mean s * 10 ^ 4 = of_int (sum_list s) / of_int (int (length s)) * 10 ^ 4"
  by (simp add: exact_mean_def)

text \<open>
  Claim C5, amended. For every non-empty series of signals 0 and 1, the value of the
  metrics record is the binary64 quotient of the sum by the count, rounded to 4 decimal
  places with ties to even (Python's \<^verbatim>\<open>round\<close> of that float); it lies between 0
  and 1, it depends on the signals alone, and it is the float of the arithmetic mean
  rounded half-to-even to 4 places whenever the series has fewer than \<open>2^38\<close> rows and
  the exact mean is not halfway between two 4-place decimals. The signals 0, 0, 1, 1, 1
  give the float 0.6.
\<close>

theorem signal_rate_value:
  assumes "signals \<noteq> []" and "set signals \<subseteq> {0, 1}"
    and "calculate_metrics signals n cfg l = Inr d"
  shows "\<exists>v. field d ''value'' = Some (PFloat v)
           \<and> v = float_div (round_half_even
                     (float_div (sum_list signals) (int (length signals)) * 10 ^ 4)) (10 ^ 4)
           \<and> 0 \<le> v \<and> v \<le> 1
           \<and> (\<forall>n' cfg' l' d'. calculate_metrics signals n' cfg' l' = Inr d'
                  \<longrightarrow> field d' ''value'' = Some (PFloat v))
           \<and> (length signals < 2 ^ 38
                \<longrightarrow> exact_mean signals * 10 ^ 4 - of_int \<lfloor>exact_mean signals * 10 ^ 4\<rfloor> \<noteq> 1 / 2
                \<longrightarrow> v = float_of_decimal (round_half_even (exact_mean signals * 10 ^ 4)) 4)
           \<and> (\<forall>n' cfg' l' d'. calculate_metrics [0, 0, 1, 1, 1] n' cfg' l' = Inr d'
                  \<longrightarrow> field d' ''value'' = Some (PFloat (float_of_decimal 6 1)))"
proof -
  let ?k = "sum_list signals"
  let ?n = "int (length signals)"
  let ?m = "float_div ?k ?n"
  let ?r = "round_half_even (?m * 10 ^ 4)"
  let ?v = "float_div ?r (10 ^ 4)"
  from assms(1) have n: "0 < ?n" by simp
  note k = signals_sum_bounds [OF assms(2)]
  have rate: "py_round (series_mean signals) 4 = Some ?v"
    by (rule signal_rate_explicit [OF assms(1)])
  have val: "field d' ''value'' = Some (PFloat ?v)"
    if "calculate_metrics signals n' cfg' l' = Inr d'" for n' cfg' l' d'
    using value_of_metrics [OF that] by (simp add: rate)
  have m: "0 \<le> ?m" "?m \<le> 1"
    using k n by (rule float_div_unit)+
  note r = round_scaled_unit [OF m]
  have v: "0 \<le> ?v" "?v \<le> 1"
    using r by (rule float_div_unit; simp)+
  have off_tie: "?v = float_of_decimal (round_half_even (exact_mean signals * 10 ^ 4)) 4"
    if "length signals < 2 ^ 38"
      and "exact_mean signals * 10 ^ 4 - of_int \<lfloor>exact_mean signals * 10 ^ 4\<rfloor> \<noteq> 1 / 2"
  proof -
    from that(1) have nlt: "?n < 2 ^ 38"
      by (metis of_nat_less_iff of_nat_numeral of_nat_power)
    from that(2)
    have nt: "(of_int ?k / of_int ?n * 10 ^ 4 :: rat)
                - of_int \<lfloor>of_int ?k / of_int ?n * 10 ^ 4 :: rat\<rfloor> \<noteq> 1 / 2"
      unfolding exact_mean_fraction .
    have "?r = round_half_even (of_int ?k / of_int ?n * 10 ^ 4)"
      by (rule rounding_agrees_off_ties [OF k n nlt nt])
    then show ?thesis
      by (simp only: float_of_decimal_def exact_mean_fraction)
  qed
  have scenario: "field d' ''value'' = Some (PFloat (float_of_decimal 6 1))"
    if "calculate_metrics [0, 0, 1, 1, 1] n' cfg' l' = Inr d'" for n' cfg' l' d'
    using value_of_metrics [OF that] by (simp add: scenario_signal_rate)
  from val [OF assms(3)] val v off_tie scenario show ?thesis
    by blast
qed

theorem signal_rate_value_witness:
  "[0, 0, 1, 1, 1] \<noteq> ([] :: int list) \<and> set [0, 0, 1, 1, 1] \<subseteq> {0, 1 :: int}
   \<and> calculate_metrics [0, 0, 1, 1, 1] 5 scenario_config 250 = Inr scenario_document
   \<and> field scenario_document ''value'' = Some (PFloat (float_of_decimal 6 1))
   \<and> 0 \<le> float_of_decimal 6 1 \<and> float_of_decimal 6 1 \<le> 1"
proof -
  have h1: "[0, 0, 1, 1, 1] \<noteq> ([] :: int list)" by simp
  have h2: "set [0, 0, 1, 1, 1] \<subseteq> {0, 1 :: int}" by simp
  have h3: "calculate_metrics [0, 0, 1, 1, 1] 5 scenario_config 250 = Inr scenario_document"
    using scenario_metrics by (simp add: len_df_def scenario_frame_def)
  have f: "field scenario_document ''value'' = Some (PFloat (float_of_decimal 6 1))"
    by (simp add: scenario_document_def)
  from signal_rate_value [OF h1 h2 h3] obtain v
    where "field scenario_document ''value'' = Some (PFloat v)" "0 \<le> v" "v \<le> 1"
    by blast
  with f have "0 \<le> float_of_decimal 6 1" "float_of_decimal 6 1 \<le> 1"
    by simp_all
  with h1 h2 h3 f show ?thesis
    by blast
qed

text \<open>
  Claim C5 as stated fails: for the 160 signals with a single 1 the arithmetic mean is
  0.00625, which rounds half-to-even to 0.0062, but the value of the record is 0.0063:
  the binary64 quotient 1/160 lies above 0.00625.
\<close>

theorem tie_mean_rounds_by_float:
  "tie_signals \<noteq> [] \<and> set tie_signals \<subseteq> {0, 1}
   \<and> calculate_metrics tie_signals 160 scenario_config 250
       = Inr (PDict [(PStr ''version'', PStr ''v1''),
                     (PStr ''rows_processed'', PInt 160),
                     (PStr ''metric'', PStr ''signal_rate''),
                     (PStr ''value'', PFloat (float_of_decimal 63 4)),
                     (PStr ''latency_ms'', PInt 250),
                     (PStr ''seed'', PInt 42),
                     (PStr ''status'', PStr ''success'')])
   \<and> exact_mean tie_signals = 1 / 160
   \<and> decimal_round_half_even (exact_mean tie_signals) 4 = 62 / 10 ^ 4
   \<and> float_of_decimal 63 4 \<noteq> float_of_decimal 62 4"
proof -
  have "set tie_signals \<subseteq> {0, 1}"
    by (simp add: tie_signals_def)
  moreover have "calculate_metrics tie_signals 160 scenario_config 250
       = Inr (PDict [(PStr ''version'', PStr ''v1''),
                     (PStr ''rows_processed'', PInt 160),
                     (PStr ''metric'', PStr ''signal_rate''),
                     (PStr ''value'', PFloat (float_of_decimal 63 4)),
                     (PStr ''latency_ms'', PInt 250),
                     (PStr ''seed'', PInt 42),
                     (PStr ''status'', PStr ''success'')])"
    by (simp add: calculate_metrics_def tie_signal_rate scenario_config_def)
  moreover have "exact_mean tie_signals = 1 / 160"
    by (simp add: exact_mean_def tie_signals_sum)
  ultimately show ?thesis
    using tie_signals_sum(3) tie_exact_rounding tie_floats_differ by blast
qed

end
